theory Spec2Isabelle
  imports Main "HOL-Library.Word" "HOL-Library.Signed_Division"
begin

section \<open>Native integers of the slicing engine\<close>

text \<open>
  \<^verbatim>\<open>C.npy_intp\<close> is the signed pointer-sized integer; the model fixes it at 64 bits.
  Addition, subtraction and multiplication wrap around. Comparisons are signed.
  The operators \<^verbatim>\<open>/\<close> and \<^verbatim>\<open>%\<close> on a signed native integer are the machine's signed
  division and remainder, which truncate towards zero and are undefined for a zero
  divisor and for the one overflowing quotient; the model returns \<open>None\<close> there.
\<close>

type_synonym npy_intp = "64 word"

definition intp_sdiv :: "npy_intp \<Rightarrow> npy_intp \<Rightarrow> npy_intp option" where
  "intp_sdiv a b =
     (if b = 0 \<or> (sint a = - (2 ^ 63) \<and> sint b = - 1) then None
      else Some (word_of_int (sint a sdiv sint b)))"

definition intp_srem :: "npy_intp \<Rightarrow> npy_intp \<Rightarrow> npy_intp option" where
  "intp_srem a b =
     (if b = 0 \<or> (sint a = - (2 ^ 63) \<and> sint b = - 1) then None
      else Some (word_of_int (sint a smod sint b)))"

section \<open>SliceArray: slicing one axis\<close>

text \<open>
  \<^verbatim>\<open>SliceArray._adjust_given_index\<close>: the index is present. A negative index has the
  extent added and is set to zero when still negative; an index at or beyond the extent
  becomes \<open>extent - 1\<close> or \<open>extent\<close> for a start, \<open>extent\<close> for a stop.
\<close>

definition adjust_given_index :: "npy_intp \<Rightarrow> bool \<Rightarrow> npy_intp \<Rightarrow> bool \<Rightarrow> npy_intp" where
  "adjust_given_index extent negative_step index is_start =
     (if index <s 0 then
        (let index' = index + extent in if index' <s 0 then 0 else index')
      else if extent \<le>s index then
        (if is_start then (if negative_step then extent - 1 else extent) else extent)
      else index)"

text \<open>\<^verbatim>\<open>SliceArray._set_default_index\<close>: the index is absent.\<close>

definition set_default_index :: "npy_intp \<Rightarrow> npy_intp \<Rightarrow> bool \<Rightarrow> npy_intp" where
  "set_default_index default1 default2 negative_step =
     (if negative_step then default1 else default2)"

text \<open>\<^verbatim>\<open>SliceArray.adjust_index\<close>.\<close>

definition adjust_index ::
  "npy_intp \<Rightarrow> bool \<Rightarrow> npy_intp \<Rightarrow> npy_intp \<Rightarrow> npy_intp \<Rightarrow> bool \<Rightarrow> bool \<Rightarrow> npy_intp" where
  "adjust_index extent negative_step index default1 default2 is_start have_index =
     (if have_index then adjust_given_index extent negative_step index is_start
      else set_default_index default1 default2 negative_step)"

text \<open>
  The local variables of \<^verbatim>\<open>SliceArray.body\<close> once the function returns, together with
  the arrays it writes. \<open>in_strides\<close> is returned as well: \<^verbatim>\<open>stride = in_strides[src_dim]\<close>
  names the array element itself, so \<^verbatim>\<open>stride.assign(zero)\<close> stores into it.
\<close>

record slice_state =
  sl_start :: npy_intp
  sl_stop :: npy_intp
  sl_step :: npy_intp
  sl_new_extent :: npy_intp
  sl_result :: "64 word"
  sl_in_strides :: "npy_intp list"
  sl_out_shape :: "npy_intp list"
  sl_out_strides :: "npy_intp list"

text \<open>
  \<^verbatim>\<open>SliceArray.body\<close>, specialised by \<open>have_start\<close>, \<open>have_stop\<close> and \<open>have_step\<close>.
  \<open>data\<close> is a byte pointer, so \<^verbatim>\<open>data[start * stride:]\<close> is \<open>data + start * stride\<close>.
  An axis number outside an array is an undefined access and gives \<open>None\<close>.
\<close>

definition SliceArray_body ::
  "bool \<Rightarrow> bool \<Rightarrow> bool \<Rightarrow> 64 word \<Rightarrow> npy_intp list \<Rightarrow> npy_intp list \<Rightarrow>
   npy_intp list \<Rightarrow> npy_intp list \<Rightarrow> npy_intp \<Rightarrow> npy_intp \<Rightarrow> npy_intp \<Rightarrow> nat \<Rightarrow> nat \<Rightarrow>
   slice_state option" where
  "SliceArray_body have_start have_stop have_step data in_shape in_strides
     out_shape out_strides start stop step src_dim dst_dim =
     (if length in_strides \<le> src_dim \<or> length in_shape \<le> src_dim
         \<or> length out_shape \<le> dst_dim \<or> length out_strides \<le> dst_dim then None
      else
        let stride = in_strides ! src_dim;
            extent = in_shape ! src_dim;
            step = (if have_step then step else 1);
            negative_step = step <s 0;
            start = adjust_index extent negative_step start (extent - 1) 0 True have_start;
            stop = adjust_index extent negative_step stop (- 1) extent False have_stop
        in case (intp_sdiv (stop - start) step, intp_srem (stop - start) step) of
             (Some q, Some r) \<Rightarrow>
               let new_extent = (if r \<noteq> 0 then q + 1 else q);
                   new_extent = (if new_extent <s 0 then 0 else new_extent);
                   stride = (if new_extent = 1 then 0 else stride)
               in Some \<lparr> sl_start = start, sl_stop = stop, sl_step = step,
                          sl_new_extent = new_extent,
                          sl_result = data + start * stride,
                          sl_in_strides = in_strides[src_dim := stride],
                          sl_out_shape = out_shape[dst_dim := new_extent],
                          sl_out_strides = out_strides[dst_dim := stride * step] \<rparr>
           | _ \<Rightarrow> None)"

section \<open>The slice normalisation contract\<close>

text \<open>
  The contract as the specification words it, on mathematical integers: an absent step
  is 1; an absent start is \<open>extent - 1\<close> for a negative step and \<open>0\<close> otherwise; a
  negative start has the extent added and is clamped to 0 when still negative; a start at
  or beyond the extent is clamped to \<open>extent - 1\<close> for a negative step and to \<open>extent\<close>
  otherwise. The stop is treated alike, with defaults \<open>-1\<close> and \<open>extent\<close> and the upper
  clamp \<open>extent\<close>. The new extent is \<open>ceil_div (stop - start) step\<close>, the quotient
  rounded towards plus infinity (the number of indices \<open>start, start + step, ...\<close> before
  \<open>stop\<close> when there is one), and 0 when that is negative.
\<close>

definition contract_step :: "int option \<Rightarrow> int" where
  "contract_step step = (case step of None \<Rightarrow> 1 | Some s \<Rightarrow> s)"

definition contract_start :: "int \<Rightarrow> bool \<Rightarrow> int option \<Rightarrow> int" where
  "contract_start extent negative_step start =
     (case start of
        None \<Rightarrow> if negative_step then extent - 1 else 0
      | Some s \<Rightarrow>
          if s < 0 then (if s + extent < 0 then 0 else s + extent)
          else if s \<ge> extent then (if negative_step then extent - 1 else extent)
          else s)"

definition contract_stop :: "int \<Rightarrow> bool \<Rightarrow> int option \<Rightarrow> int" where
  "contract_stop extent negative_step stop =
     (case stop of
        None \<Rightarrow> if negative_step then - 1 else extent
      | Some s \<Rightarrow>
          if s < 0 then (if s + extent < 0 then 0 else s + extent)
          else if s > extent then extent
          else s)"

definition ceil_div :: "int \<Rightarrow> int \<Rightarrow> int" where
  "ceil_div a b = - ((- a) div b)"

definition contract_new_extent :: "int \<Rightarrow> int \<Rightarrow> int \<Rightarrow> int" where
  "contract_new_extent start stop step =
     (let n = ceil_div (stop - start) step in if n < 0 then 0 else n)"

section \<open>Broadcast: one operand against the destination shape\<close>

text \<open>
  The loop \<^verbatim>\<open>for_range(ndim)\<close> of \<^verbatim>\<open>Broadcast.body\<close>, from axis \<open>i\<close> on. The arrays are
  updated in place, so the loop carries \<open>dst_shape\<close> and \<open>src_strides\<close> and returns them
  with the return value: 0 at the first axis whose extents differ, 1 after the last axis.
  An index outside an array is an undefined access and gives \<open>None\<close>.
\<close>

function broadcast_loop ::
  "int \<Rightarrow> nat \<Rightarrow> nat \<Rightarrow> npy_intp list \<Rightarrow> npy_intp list \<Rightarrow> npy_intp list \<Rightarrow>
   (int \<times> npy_intp list \<times> npy_intp list) option" where
  "broadcast_loop dim_offset ndim i dst_shape src_shape src_strides =
     (if i < ndim then
        (if length src_shape \<le> i then None
         else
           let src_extent = src_shape ! i in
           if src_extent = 1 then
             (if length src_strides \<le> i then None
              else broadcast_loop dim_offset ndim (Suc i) dst_shape src_shape
                     (src_strides[i := 0]))
           else if int i + dim_offset < 0 \<or> int (length dst_shape) \<le> int i + dim_offset
             then None
           else
             let dst_extent = dst_shape ! nat (int i + dim_offset) in
             if dst_extent = 1 then
               broadcast_loop dim_offset ndim (Suc i)
                 (dst_shape[nat (int i + dim_offset) := src_extent]) src_shape src_strides
             else if src_extent \<noteq> dst_extent then Some (0, dst_shape, src_strides)
             else broadcast_loop dim_offset ndim (Suc i) dst_shape src_shape src_strides)
      else Some (1, dst_shape, src_strides))"
  by pat_completeness auto
termination
  by (relation "measure (\<lambda>(dim_offset, ndim, i, dst_shape, src_shape, src_strides). ndim - i)")
    auto

declare broadcast_loop.simps [simp del]

text \<open>\<^verbatim>\<open>Broadcast.body\<close>: \<open>dim_offset = max_ndim - ndim\<close>, then the loop from axis 0.\<close>

definition Broadcast_body ::
  "npy_intp list \<Rightarrow> npy_intp list \<Rightarrow> npy_intp list \<Rightarrow> nat \<Rightarrow> nat \<Rightarrow>
   (int \<times> npy_intp list \<times> npy_intp list) option" where
  "Broadcast_body dst_shape src_shape src_strides max_ndim ndim =
     broadcast_loop (int max_ndim - int ndim) ndim 0 dst_shape src_shape src_strides"

section \<open>BroadcastNode: all operands\<close>

text \<open>The Python exceptions raised by the code of this development.\<close>

datatype py_exception =
    ValueError string
  | NotImplementedError string
  | TypeError string
  | PicklingError
  | AttributeError string

text \<open>
  An operand of a \<^verbatim>\<open>BroadcastNode\<close>: whether its type is an array type, the number of
  dimensions of that type, and the shape and strides of its array.
\<close>

record operand =
  op_is_array :: bool
  op_ndim :: nat
  op_shape :: "npy_intp list"
  op_strides :: "npy_intp list"

text \<open>
  The loop over the operands in \<^verbatim>\<open>visit_BroadcastNode\<close>: every operand of array type is
  broadcast against the shared destination shape, whatever the earlier calls returned.
  The result is the final shape, the operands with their strides as the calls left them,
  and the return values in \<open>broadcast_retvals\<close>, in operand order.
\<close>

fun broadcast_operands ::
  "nat \<Rightarrow> npy_intp list \<Rightarrow> operand list \<Rightarrow>
   (npy_intp list \<times> operand list \<times> int list) option" where
  "broadcast_operands max_ndim shape [] = Some (shape, [], [])"
| "broadcast_operands max_ndim shape (op # ops) =
     (if op_is_array op then
        (case Broadcast_body shape (op_shape op) (op_strides op) max_ndim (op_ndim op) of
           None \<Rightarrow> None
         | Some (lresult, shape', strides') \<Rightarrow>
             (case broadcast_operands max_ndim shape' ops of
                None \<Rightarrow> None
              | Some (shape'', ops', retvals) \<Rightarrow>
                  Some (shape'', op\<lparr>op_strides := strides'\<rparr> # ops', lresult # retvals)))
      else
        (case broadcast_operands max_ndim shape ops of
           None \<Rightarrow> None
         | Some (shape'', ops', retvals) \<Rightarrow> Some (shape'', op # ops', retvals)))"

text \<open>
  Modelled from the spec: \<^verbatim>\<open>nodes.CheckErrorNode\<close> is not among the sources. The nodes
  built in \<^verbatim>\<open>BroadcastNode.__init__\<close> carry the bad value 0, the exception type
  \<^verbatim>\<open>ValueError\<close> and the message \<^verbatim>\<open>"Shape mismatch while broadcasting"\<close>; on a failure
  return the caller raises that error. They are visited in operand order after all
  operands have been broadcast.
\<close>

fun check_errors :: "int list \<Rightarrow> py_exception + unit" where
  "check_errors [] = Inr ()"
| "check_errors (return_value # rest) =
     (if return_value = 0 then Inl (ValueError ''Shape mismatch while broadcasting'')
      else check_errors rest)"

text \<open>
  \<^verbatim>\<open>visit_BroadcastNode\<close>: the shape starts as all ones, the operands are broadcast, the
  errors are checked, and the shape is returned.
\<close>

definition visit_BroadcastNode ::
  "nat \<Rightarrow> operand list \<Rightarrow> (py_exception + npy_intp list \<times> operand list) option" where
  "visit_BroadcastNode max_ndim operands =
     (case broadcast_operands max_ndim (replicate max_ndim 1) operands of
        None \<Rightarrow> None
      | Some (shape, operands', retvals) \<Rightarrow>
          (case check_errors retvals of
             Inl e \<Rightarrow> Some (Inl e)
           | Inr _ \<Rightarrow> Some (Inr (shape, operands'))))"

section \<open>Compatible extents\<close>

text \<open>
  The extent an operand contributes to a destination axis: the operand's axes are the
  last \<open>ndim\<close> axes of the destination. \<open>broadcastable\<close> says that no destination axis
  sees two array operands with differing extents other than 1.
\<close>

definition extent_at :: "nat \<Rightarrow> operand \<Rightarrow> nat \<Rightarrow> npy_intp option" where
  "extent_at max_ndim op j =
     (if op_is_array op \<and> max_ndim - op_ndim op \<le> j \<and> j < max_ndim
      then Some (op_shape op ! (j - (max_ndim - op_ndim op))) else None)"

definition broadcastable :: "nat \<Rightarrow> operand list \<Rightarrow> bool" where
  "broadcastable max_ndim ops =
     (\<forall>j \<in> {..<max_ndim}. \<forall>p \<in> set ops. \<forall>q \<in> set ops.
        case (extent_at max_ndim p j, extent_at max_ndim q j) of
          (Some a, Some b) \<Rightarrow> a = 1 \<or> b = 1 \<or> a = b
        | _ \<Rightarrow> True)"

definition wf_operand :: "nat \<Rightarrow> operand \<Rightarrow> bool" where
  "wf_operand max_ndim op =
     (op_is_array op \<longrightarrow>
        length (op_shape op) = op_ndim op \<and> length (op_strides op) = op_ndim op
        \<and> op_ndim op \<le> max_ndim)"

text \<open>
  Two notions for reasoning about the loop. \<open>axes_agree\<close>: from axis \<open>i\<close> on, every
  extent of the operand is 1, meets a destination extent of 1, or equals the destination
  extent. \<open>loop_post\<close>: what the loop from axis \<open>i\<close> returns on arrays of the right
  lengths: the value is 1 exactly when the axes agree, and then the strides are zeroed at
  the operand's axes of extent 1 and the destination has adopted the operand's extent
  wherever it was 1.
\<close>

definition axes_agree :: "nat \<Rightarrow> nat \<Rightarrow> nat \<Rightarrow> npy_intp list \<Rightarrow> npy_intp list \<Rightarrow> bool" where
  "axes_agree off n i dst ss =
     (\<forall>k. i \<le> k \<and> k < n \<longrightarrow> ss ! k = 1 \<or> dst ! (k + off) = 1 \<or> ss ! k = dst ! (k + off))"

definition loop_post ::
  "nat \<Rightarrow> nat \<Rightarrow> nat \<Rightarrow> npy_intp list \<Rightarrow> npy_intp list \<Rightarrow> npy_intp list \<Rightarrow>
   int \<Rightarrow> npy_intp list \<Rightarrow> npy_intp list \<Rightarrow> bool" where
  "loop_post off n i dst ss st r dst' st' =
     (length dst' = length dst \<and> length st' = n \<and> (r = 0 \<or> r = 1)
      \<and> (r = 1 \<longleftrightarrow> axes_agree off n i dst ss)
      \<and> (r = 1 \<longrightarrow>
            (\<forall>k<n. st' ! k = (if i \<le> k \<and> ss ! k = 1 then 0 else st ! k))
          \<and> (\<forall>j<length dst. dst' ! j =
                (if i + off \<le> j \<and> j < n + off \<and> ss ! (j - off) \<noteq> 1 \<and> dst ! j = 1
                 then ss ! (j - off) else dst ! j))))"

text \<open>
  One iteration of the loop, with the rest of the loop as a continuation: the same
  iteration whatever the loop bound.
\<close>

definition axis_step ::
  "int \<Rightarrow> nat \<Rightarrow> npy_intp list \<Rightarrow> npy_intp list \<Rightarrow> npy_intp list \<Rightarrow>
   (npy_intp list \<Rightarrow> npy_intp list \<Rightarrow> (int \<times> npy_intp list \<times> npy_intp list) option) \<Rightarrow>
   (int \<times> npy_intp list \<times> npy_intp list) option" where
  "axis_step d i dst ss st cont =
     (if length ss \<le> i then None
      else if ss ! i = 1 then (if length st \<le> i then None else cont dst (st[i := 0]))
      else if int i + d < 0 \<or> int (length dst) \<le> int i + d then None
      else if dst ! nat (int i + d) = 1 then cont (dst[nat (int i + d) := ss ! i]) st
      else if ss ! i \<noteq> dst ! nat (int i + d) then Some (0, dst, st)
      else cont dst st)"

text \<open>
  Notions for the loop over the operands. \<open>adopted\<close> is the destination extent after one
  successful call. \<open>compatible\<close> is \<open>broadcastable\<close> on a set of operands. \<open>shape_inv\<close>
  relates the destination shape to the operands broadcast so far: each of their extents
  is 1 or the destination's, and a destination extent other than 1 is the extent of one
  of them. \<open>agrees\<close>: no extent of the operand clashes with the destination.
  \<open>zero_unit_strides\<close> is an array operand after a successful call.
\<close>

definition adopted :: "nat \<Rightarrow> operand \<Rightarrow> npy_intp list \<Rightarrow> nat \<Rightarrow> npy_intp" where
  "adopted max_ndim op dst j =
     (case extent_at max_ndim op j of
        Some a \<Rightarrow> if a \<noteq> 1 \<and> dst ! j = 1 then a else dst ! j
      | None \<Rightarrow> dst ! j)"

definition compatible :: "nat \<Rightarrow> operand set \<Rightarrow> bool" where
  "compatible max_ndim S =
     (\<forall>j<max_ndim. \<forall>p\<in>S. \<forall>q\<in>S. \<forall>a b.
        extent_at max_ndim p j = Some a \<and> extent_at max_ndim q j = Some b \<longrightarrow>
        a = 1 \<or> b = 1 \<or> a = b)"

definition shape_inv :: "nat \<Rightarrow> operand set \<Rightarrow> npy_intp list \<Rightarrow> bool" where
  "shape_inv max_ndim P dst =
     (length dst = max_ndim \<and>
      (\<forall>j<max_ndim.
         (\<forall>p\<in>P. \<forall>a. extent_at max_ndim p j = Some a \<longrightarrow> a = 1 \<or> a = dst ! j)
       \<and> (dst ! j \<noteq> 1 \<longrightarrow> (\<exists>p\<in>P. extent_at max_ndim p j = Some (dst ! j)))))"

definition agrees :: "nat \<Rightarrow> operand \<Rightarrow> npy_intp list \<Rightarrow> bool" where
  "agrees max_ndim op dst =
     (\<forall>j<max_ndim. \<forall>a. extent_at max_ndim op j = Some a \<longrightarrow> a = 1 \<or> dst ! j = 1 \<or> a = dst ! j)"

definition zero_unit_strides :: "operand \<Rightarrow> operand" where
  "zero_unit_strides op =
     (if op_is_array op
      then op\<lparr>op_strides := map2 (\<lambda>e s. if e = 1 then 0 else s) (op_shape op) (op_strides op)\<rparr>
      else op)"

section \<open>PythonAPI: the serialisation cache of a module\<close>

text \<open>
  A global constant of the module is named after the identity of the serialised object:
  \<^verbatim>\<open>".const.pickledata.%s" % id(obj)\<close> and \<^verbatim>\<open>".const.picklebuf.%s" % id(obj)\<close>. Its
  value is the byte array of the pickle, or the structure \<^verbatim>\<open>{i8* data, i32 length}\<close>
  that points to such an array. The other global names are the functions of a generator
  descriptor, \<^verbatim>\<open>llvm_cpython_wrapper_name\<close> and \<^verbatim>\<open>llvm_finalizer_name\<close>.
\<close>

datatype gname =
    Const_pickledata nat
  | Const_picklebuf nat
  | Cpython_wrapper nat
  | Finalizer nat

datatype gconst = Bytearray "8 word list" | Literal_struct gname nat

text \<open>
  The module as \<^verbatim>\<open>serialize_object\<close> sees it: the attribute \<^verbatim>\<open>__serialized\<close> (absent
  until the first \<^verbatim>\<open>PythonAPI.__init__\<close> on the module), the global constants in the
  order of their insertion, and the objects handed to \<^verbatim>\<open>pickle.dumps\<close> so far, which
  records every encoding that was performed.
\<close>

record 'o module =
  serialized :: "('o \<rightharpoonup> gname) option"
  globals :: "(gname \<times> gconst) list"
  pickled :: "'o list"

text \<open>
  What \<^verbatim>\<open>serialize_object\<close> takes from outside the class: whether an object can be a
  dictionary key, \<^verbatim>\<open>pickle.dumps\<close> (which may raise), \<^verbatim>\<open>id\<close>, and
  \<^verbatim>\<open>context.insert_unique_const\<close>, which gives the global for a name and a value and
  the globals of the module afterwards.
\<close>

record 'o serializer =
  hashable :: "'o \<Rightarrow> bool"
  pickle_dumps :: "'o \<Rightarrow> 8 word list option"
  id_of :: "'o \<Rightarrow> nat"
  insert_unique_const ::
    "(gname \<times> gconst) list \<Rightarrow> gname \<Rightarrow> gconst \<Rightarrow> gname \<times> (gname \<times> gconst) list"

text \<open>
  The part of \<^verbatim>\<open>PythonAPI.__init__\<close> that concerns the cache: a module without the
  attribute gets an empty dictionary, a module that has it keeps it.
\<close>

definition PythonAPI_init :: "'o module \<Rightarrow> 'o module" where
  "PythonAPI_init m =
     (case serialized m of None \<Rightarrow> m\<lparr>serialized := Some Map.empty\<rparr> | Some _ \<Rightarrow> m)"

text \<open>
  \<^verbatim>\<open>PythonAPI.serialize_object\<close>. The dictionary lookup raises \<^verbatim>\<open>TypeError\<close> for an
  object that cannot be hashed; only \<^verbatim>\<open>KeyError\<close> is caught. On a miss the object is
  pickled, the byte array and the structure are inserted, and the structure is cached.
\<close>

definition serialize_object ::
  "'o serializer \<Rightarrow> 'o \<Rightarrow> 'o module \<Rightarrow> py_exception + gname \<times> 'o module" where
  "serialize_object env obj m =
     (case serialized m of
        None \<Rightarrow> Inl (AttributeError ''__serialized'')
      | Some cache \<Rightarrow>
          if \<not> hashable env obj then Inl (TypeError ''unhashable type'')
          else
            (case cache obj of
               Some gv \<Rightarrow> Inr (gv, m)
             | None \<Rightarrow>
                 (case pickle_dumps env obj of
                    None \<Rightarrow> Inl PicklingError
                  | Some data \<Rightarrow>
                      let (arr, g1) = insert_unique_const env (globals m)
                                        (Const_pickledata (id_of env obj)) (Bytearray data);
                          struct = Literal_struct arr (length data);
                          (gv, g2) = insert_unique_const env g1
                                       (Const_picklebuf (id_of env obj)) struct
                      in Inr (gv, m\<lparr>serialized := Some (cache(obj \<mapsto> gv)),
                                      globals := g2,
                                      pickled := pickled m @ [obj]\<rparr>))))"

text \<open>Serialising a sequence of objects, one \<^verbatim>\<open>PythonAPI\<close> instance per call.\<close>

fun serialize_all ::
  "'o serializer \<Rightarrow> 'o list \<Rightarrow> 'o module \<Rightarrow> py_exception + gname list \<times> 'o module" where
  "serialize_all env [] m = Inr ([], m)"
| "serialize_all env (obj # objs) m =
     (case serialize_object env obj (PythonAPI_init m) of
        Inl e \<Rightarrow> Inl e
      | Inr (gv, m') \<Rightarrow>
          (case serialize_all env objs m' of
             Inl e \<Rightarrow> Inl e
           | Inr (gvs, m'') \<Rightarrow> Inr (gv # gvs, m'')))"

text \<open>
  A module's cache and pickle log are consistent when every pickled object is cached and
  no object was pickled twice. A fresh module is consistent.
\<close>

definition cache_consistent :: "'o module \<Rightarrow> bool" where
  "cache_consistent m =
     (distinct (pickled m) \<and>
      (\<forall>obj \<in> set (pickled m). \<exists>cache gv. serialized m = Some cache \<and> cache obj = Some gv))"

definition fresh_module :: "'o module" where
  "fresh_module = \<lparr>serialized = None, globals = [], pickled = []\<rparr>"

text \<open>
  Modelled from the spec: \<^verbatim>\<open>context.insert_unique_const\<close> is not among the sources. The
  constant-insertion primitive embeds the value under the name and gives a stable
  reference; a repeated insertion under a name already present gives the existing
  global. Used to run the examples.
\<close>

definition name_based_insert ::
  "(gname \<times> gconst) list \<Rightarrow> gname \<Rightarrow> gconst \<Rightarrow> gname \<times> (gname \<times> gconst) list" where
  "name_based_insert g name val =
     (case map_of g name of Some _ \<Rightarrow> (name, g) | None \<Rightarrow> (name, g @ [(name, val)]))"

text \<open>An example environment: objects are numbers, their own identity and pickle.\<close>

definition example_serializer :: "nat serializer" where
  "example_serializer =
     \<lparr>hashable = (\<lambda>_. True),
      pickle_dumps = (\<lambda>n. Some [word_of_nat n]),
      id_of = (\<lambda>n. n),
      insert_unique_const = name_based_insert\<rparr>"

section \<open>PythonAPI: types, native values and the runtime\<close>

text \<open>
  The Numba types that \<^verbatim>\<open>to_native_value\<close> and \<^verbatim>\<open>from_native_value\<close> tell apart.
  \<open>Integer signed bitwidth\<close>; \<open>NPDatetime\<close> and \<open>NPTimedelta\<close> carry the unit code;
  \<open>Record\<close> the size of the record in bytes and the address of its dtype object;
  \<open>Buffer\<close> is a buffer that is not an array;
  \<open>UniTuple dtype count\<close>; \<open>Generator\<close> carries its descriptor and whether it has a
  finaliser; \<open>CharSeq\<close> the number of characters; \<open>ExternalFunctionPointer\<close> the
  structure constant that \<^verbatim>\<open>serialize_object\<close> gives for its \<^verbatim>\<open>get_pointer\<close>, when it has
  one.
\<close>

datatype ty =
    Pyobject
  | Object
  | Boolean
  | Integer bool nat
  | Float32
  | Float64
  | Complex64
  | Complex128
  | NPDatetime nat
  | NPTimedelta nat
  | NoneType
  | Record nat nat
  | Array
  | Buffer
  | Optional ty
  | Tuple "ty list"
  | UniTuple ty nat
  | Generator nat bool
  | CharSeq nat
  | ExternalFunctionPointer "gname option"

text \<open>
  Values of the generated code. \<open>NObj\<close> is a \<^verbatim>\<open>PyObject*\<close>, \<open>None\<close> the null pointer;
  objects are values, so a call that stores into an object gives the object after the
  store. \<open>NInt w v\<close> is the \<open>w\<close>-bit integer with unsigned value \<open>v\<close>. Doubles and floats are
  their bit patterns. \<open>NPtr\<close> is a raw address, \<open>NGlobal\<close> the address of a global,
  \<open>NCString\<close> a constant C string,
  \<open>NStruct\<close> a structure, \<open>NArray\<close> an array aggregate, \<open>NZero\<close> a zero-initialised
  aggregate, \<open>NUndef\<close> an undefined value (a load from memory never written).
\<close>

datatype 'o native =
    NObj "'o option"
  | NInt nat nat
  | NDouble "64 word"
  | NFloat "32 word"
  | NPtr nat
  | NGlobal gname
  | NCString string
  | NStruct "'o native list"
  | NArray "'o native list"
  | NJust "'o native"
  | NNothing
  | NZero
  | NUndef

text \<open>
  Modelled from the spec: \<^verbatim>\<open>context.make_optional_value\<close>, \<^verbatim>\<open>context.make_optional_none\<close>,
  \<^verbatim>\<open>cgutils.pack_array\<close> and \<^verbatim>\<open>cgutils.make_anonymous_struct\<close> are not among the
  sources. An optional is wrapped as "present" or is the "absent" value of the same
  layout; a tuple is a packed array when homogeneous and an aggregate otherwise.
\<close>

definition make_optional_value :: "'o native \<Rightarrow> 'o native" where
  "make_optional_value v = NJust v"

definition make_optional_none :: "'o native" where
  "make_optional_none = NNothing"

definition pack_array :: "'o native list \<Rightarrow> 'o native" where
  "pack_array values = NArray values"

definition make_anonymous_struct :: "'o native list \<Rightarrow> 'o native" where
  "make_anonymous_struct values = NStruct values"

text \<open>\<^verbatim>\<open>builder.extract_value(val, i)\<close> on an aggregate.\<close>

definition extract_value :: "'o native \<Rightarrow> nat \<Rightarrow> 'o native" where
  "extract_value val i =
     (case val of
        NStruct vs \<Rightarrow> if i < length vs then vs ! i else NUndef
      | NArray vs \<Rightarrow> if i < length vs then vs ! i else NUndef
      | _ \<Rightarrow> NUndef)"

text \<open>
  Integer instructions. \<open>zext\<close> keeps the unsigned value, \<open>sext\<close> the signed one,
  \<open>trunc\<close> the low bits. On a value that is not an integer the result is undefined.
\<close>

definition zext :: "'o native \<Rightarrow> nat \<Rightarrow> 'o native" where
  "zext val w' = (case val of NInt w v \<Rightarrow> NInt w' (v mod 2 ^ w) | _ \<Rightarrow> NUndef)"

definition signed_value :: "nat \<Rightarrow> nat \<Rightarrow> int" where
  "signed_value w v =
     (if 0 < w \<and> 2 ^ (w - 1) \<le> v mod 2 ^ w then int (v mod 2 ^ w) - 2 ^ w
      else int (v mod 2 ^ w))"

definition sext :: "'o native \<Rightarrow> nat \<Rightarrow> 'o native" where
  "sext val w' =
     (case val of NInt w v \<Rightarrow> NInt w' (nat (signed_value w v mod 2 ^ w')) | _ \<Rightarrow> NUndef)"

definition trunc :: "'o native \<Rightarrow> nat \<Rightarrow> 'o native" where
  "trunc val w' = (case val of NInt w v \<Rightarrow> NInt w' (v mod 2 ^ w') | _ \<Rightarrow> NUndef)"

text \<open>
  \<^verbatim>\<open>cgutils.is_null\<close>, \<^verbatim>\<open>is_not_null\<close> and \<^verbatim>\<open>is_false\<close>: comparison with the null
  constant of the value's type.
\<close>

definition is_null :: "'o native \<Rightarrow> bool" where
  "is_null val =
     (case val of
        NObj p \<Rightarrow> p = None
      | NInt w v \<Rightarrow> v mod 2 ^ w = 0
      | NPtr a \<Rightarrow> a = 0
      | NZero \<Rightarrow> True
      | _ \<Rightarrow> False)"

definition is_not_null :: "'o native \<Rightarrow> bool" where
  "is_not_null val = (\<not> is_null val)"

definition is_false :: "'o native \<Rightarrow> bool" where
  "is_false val = is_null val"

definition bit :: "bool \<Rightarrow> 'o native" where
  "bit b = NInt 1 (if b then 1 else 0)"

text \<open>The C functions the generated code calls, by symbol name.\<close>

datatype cfunc =
    Py_IncRef | Py_DecRef | PyErr_Occurred | PyErr_SetString
  | PyObject_IsTrue | PyBool_FromLong
  | PyNumber_Long | PyLong_AsLongLong | PyLong_AsUnsignedLongLong | PyLong_AsVoidPtr
  | PyInt_FromLong | PyLong_FromLongLong | PyLong_FromUnsignedLongLong
  | PyNumber_Float | PyFloat_AsDouble | PyFloat_FromDouble | PyComplex_FromDoubles
  | PyTuple_GetItem | PyTuple_New | PyTuple_SetItem
  | PyObject_CallFunctionObjArgs
  | PyBytes_FromStringAndSize | PyString_FromStringAndSize
  | numba_unpickle | numba_complex_adaptor
  | numba_extract_record_data | numba_recreate_record
  | numba_get_buffer | numba_release_buffer | numba_adapt_buffer | numba_adapt_ndarray
  | numba_extract_np_datetime | numba_extract_np_timedelta
  | numba_create_np_datetime | numba_create_np_timedelta
  | numba_make_generator

text \<open>
  The state of the interpreter as the generated code observes it: whether an error is
  pending, and the calls made so far with their arguments, in order. An argument that
  points to a local is recorded as the value stored there.
\<close>

record 'o world =
  err_indicator :: bool
  calls :: "(cfunc \<times> 'o native list) list"

text \<open>
  What the generated code takes from outside. \<open>extern\<close> gives, for a C function and its
  arguments, the value it returns, the values it stores through its pointer arguments,
  and whether it leaves an error pending. \<open>c_object\<close> is the object behind a C name
  (\<^verbatim>\<open>get_c_object\<close>). \<open>fptrunc\<close> and \<open>fpext\<close> are the conversions between double and
  float. \<open>pyversion_lt3\<close>, \<open>long_min\<close> and \<open>long_max\<close> are \<^verbatim>\<open>PYVERSION < (3, 0)\<close> and the
  bounds of a C long from \<^verbatim>\<open>_helperlib\<close>; \<open>long_bits\<close> is the width of a C long.
  \<open>generator_state\<close> is \<^verbatim>\<open>context.get_generator_state\<close>, \<open>array_parent\<close> the \<^verbatim>\<open>parent\<close>
  field of a native array, and \<open>abi_sizeof\<close> the size of a generator's state structure.
\<close>

record 'o runtime =
  extern :: "cfunc \<Rightarrow> 'o native list \<Rightarrow> 'o native \<times> 'o native list \<times> bool"
  c_object :: "string \<Rightarrow> 'o option"
  fptrunc :: "64 word \<Rightarrow> 32 word"
  fpext :: "32 word \<Rightarrow> 64 word"
  pyversion_lt3 :: bool
  long_bits :: nat
  long_min :: int
  long_max :: int
  generator_state :: "'o option \<Rightarrow> 'o native"
  array_parent :: "'o native \<Rightarrow> 'o option"
  abi_sizeof :: "nat \<Rightarrow> nat"

text \<open>
  \<^verbatim>\<open>builder.call(fn, args)\<close>: the call is recorded, an error it raises becomes pending.
  The result is the returned value and the values stored through pointer arguments.
\<close>

definition ccall ::
  "'o runtime \<Rightarrow> cfunc \<Rightarrow> 'o native list \<Rightarrow> 'o world \<Rightarrow>
   ('o native \<times> 'o native list) \<times> 'o world" where
  "ccall env fn args w =
     (case extern env fn args of
        (ret, outs, raised) \<Rightarrow>
          ((ret, outs),
           w\<lparr>err_indicator := err_indicator w \<or> raised, calls := calls w @ [(fn, args)]\<rparr>))"

text \<open>
  The value behind a pointer argument after a call: what the call stored there, or the
  value from before the call when it stored nothing.
\<close>

definition out1 :: "'o native \<Rightarrow> 'o native list \<Rightarrow> 'o native" where
  "out1 old outs = (case outs of [] \<Rightarrow> old | v # _ \<Rightarrow> v)"

text \<open>
  The result of converting an object to a native value: the class \<^verbatim>\<open>NativeValue\<close>. The
  cleanup, when present, is code generated later; it runs in the world of that moment.
\<close>

record 'o NativeValue =
  nv_value :: "'o native"
  is_error :: bool
  cleanup :: "('o world \<Rightarrow> 'o world) option"

section \<open>PythonAPI: the calls into the C API\<close>

definition incref :: "'o runtime \<Rightarrow> 'o native \<Rightarrow> 'o world \<Rightarrow> 'o world" where
  "incref env obj w = snd (ccall env Py_IncRef [obj] w)"

definition decref :: "'o runtime \<Rightarrow> 'o native \<Rightarrow> 'o world \<Rightarrow> 'o world" where
  "decref env obj w = snd (ccall env Py_DecRef [obj] w)"

text \<open>
  \<^verbatim>\<open>err_occurred\<close> reads the pending error of the interpreter; \<open>c_api_error\<close> is the
  local function of \<^verbatim>\<open>to_native_value\<close> that tests it.
\<close>

definition err_occurred :: "'o world \<Rightarrow> 'o native \<times> 'o world" where
  "err_occurred w =
     (NPtr (if err_indicator w then 1 else 0), w\<lparr>calls := calls w @ [(PyErr_Occurred, [])]\<rparr>)"

definition c_api_error :: "'o world \<Rightarrow> bool \<times> 'o world" where
  "c_api_error w = (case err_occurred w of (p, w') \<Rightarrow> (is_not_null p, w'))"

definition get_c_object :: "'o runtime \<Rightarrow> string \<Rightarrow> 'o native" where
  "get_c_object env name = NObj (c_object env name)"

definition err_set_string :: "'o runtime \<Rightarrow> string \<Rightarrow> string \<Rightarrow> 'o world \<Rightarrow> 'o world" where
  "err_set_string env exctype msg w =
     w\<lparr>err_indicator := True,
       calls := calls w @ [(PyErr_SetString, [get_c_object env exctype, NCString msg])]\<rparr>"

definition make_none :: "'o runtime \<Rightarrow> 'o world \<Rightarrow> 'o native \<times> 'o world" where
  "make_none env w = (let obj = get_c_object env ''Py_None'' in (obj, incref env obj w))"

definition borrow_none :: "'o runtime \<Rightarrow> 'o native" where
  "borrow_none env = get_c_object env ''Py_None''"

definition object_istrue where
  "object_istrue env obj w = ccall env PyObject_IsTrue [obj] w"

definition number_long where
  "number_long env numobj w = ccall env PyNumber_Long [numobj] w"

definition long_as_longlong where
  "long_as_longlong env numobj w = ccall env PyLong_AsLongLong [numobj] w"

definition long_as_ulonglong where
  "long_as_ulonglong env numobj w = ccall env PyLong_AsUnsignedLongLong [numobj] w"

definition long_as_voidptr where
  "long_as_voidptr env numobj w = ccall env PyLong_AsVoidPtr [numobj] w"

definition number_float where
  "number_float env val w = ccall env PyNumber_Float [val] w"

definition float_as_double where
  "float_as_double env fobj w = ccall env PyFloat_AsDouble [fobj] w"

definition float_from_double where
  "float_from_double env fval w = ccall env PyFloat_FromDouble [fval] w"

definition bool_from_long where
  "bool_from_long env ival w = ccall env PyBool_FromLong [ival] w"

definition complex_from_doubles where
  "complex_from_doubles env realval imagval w = ccall env PyComplex_FromDoubles [realval, imagval] w"

definition tuple_getitem where
  "tuple_getitem env tup idx w = ccall env PyTuple_GetItem [tup, NInt 64 idx] w"

definition tuple_new where
  "tuple_new env count w = ccall env PyTuple_New [NInt 32 count] w"

definition tuple_setitem where
  "tuple_setitem env tuple_val index item w =
     ccall env PyTuple_SetItem [tuple_val, NInt 32 index, item] w"

definition call_function_objargs where
  "call_function_objargs env callee objargs w =
     ccall env PyObject_CallFunctionObjArgs ([callee] @ objargs @ [NObj None]) w"

definition unserialize where
  "unserialize env structptr w = ccall env numba_unpickle [structptr] w"

definition complex_adaptor where
  "complex_adaptor env cobj cmplx w = ccall env numba_complex_adaptor [cobj, cmplx] w"

definition extract_record_data where
  "extract_record_data env obj pbuf w = ccall env numba_extract_record_data [obj, pbuf] w"

definition recreate_record where
  "recreate_record env pdata sz dtypeaddr w =
     ccall env numba_recreate_record [pdata, sz, dtypeaddr] w"

definition get_buffer where
  "get_buffer env obj pbuf w = ccall env numba_get_buffer [obj, pbuf] w"

definition release_buffer :: "'o runtime \<Rightarrow> 'o native \<Rightarrow> 'o world \<Rightarrow> 'o world" where
  "release_buffer env pbuf w = snd (ccall env numba_release_buffer [pbuf] w)"

definition numba_buffer_adaptor where
  "numba_buffer_adaptor env buf ptr w = ccall env numba_adapt_buffer [buf, ptr] w"

definition numba_array_adaptor where
  "numba_array_adaptor env ary ptr w = ccall env numba_adapt_ndarray [ary, ptr] w"

definition extract_np_datetime where
  "extract_np_datetime env obj w = ccall env numba_extract_np_datetime [obj] w"

definition extract_np_timedelta where
  "extract_np_timedelta env obj w = ccall env numba_extract_np_timedelta [obj] w"

definition create_np_datetime where
  "create_np_datetime env val unit_code w =
     ccall env numba_create_np_datetime [val, NInt 32 unit_code] w"

definition create_np_timedelta where
  "create_np_timedelta env val unit_code w =
     ccall env numba_create_np_timedelta [val, NInt 32 unit_code] w"

definition bytes_from_string_and_size where
  "bytes_from_string_and_size env str sz w =
     ccall env (if \<not> pyversion_lt3 env then PyBytes_FromStringAndSize
                else PyString_FromStringAndSize) [str, sz] w"

text \<open>
  \<^verbatim>\<open>alloca_buffer\<close>: a zero-initialised \<^verbatim>\<open>Py_buffer\<close>. \<^verbatim>\<open>cgutils.alloca_once\<close> without a
  value: memory never written.
\<close>

definition alloca_buffer :: "'o native" where
  "alloca_buffer = NZero"

definition alloca_once :: "'o native" where
  "alloca_once = NUndef"

text \<open>The casts between double and float of the generated code.\<close>

definition fptrunc_native :: "'o runtime \<Rightarrow> 'o native \<Rightarrow> 'o native" where
  "fptrunc_native env v = (case v of NDouble d \<Rightarrow> NFloat (fptrunc env d) | _ \<Rightarrow> NUndef)"

definition fpext_native :: "'o runtime \<Rightarrow> 'o native \<Rightarrow> 'o native" where
  "fpext_native env v = (case v of NFloat f \<Rightarrow> NDouble (fpext env f) | _ \<Rightarrow> NUndef)"

section \<open>PythonAPI: from objects to native values\<close>

text \<open>\<^verbatim>\<open>to_native_int\<close>.\<close>

definition to_native_int ::
  "'o runtime \<Rightarrow> 'o native \<Rightarrow> bool \<Rightarrow> nat \<Rightarrow> 'o world \<Rightarrow> 'o native \<times> 'o world" where
  "to_native_int env obj is_signed bitwidth w =
     (case number_long env obj w of
        ((longobj, _), w1) \<Rightarrow>
          if is_not_null longobj then
            (case (if is_signed then long_as_longlong env longobj w1
                   else long_as_ulonglong env longobj w1) of
               ((llval, _), w2) \<Rightarrow> (trunc llval bitwidth, decref env longobj w2))
          else (alloca_once, w1))"

text \<open>\<^verbatim>\<open>to_native_buffer\<close>.\<close>

definition to_native_buffer ::
  "'o runtime \<Rightarrow> 'o native \<Rightarrow> 'o world \<Rightarrow> 'o NativeValue \<times> 'o world" where
  "to_native_buffer env obj w =
     (case get_buffer env obj alloca_buffer w of
        ((res, outs), w1) \<Rightarrow>
          let buf = out1 alloca_buffer outs;
              is_error = is_not_null res;
              nativeary = alloca_once
          in if \<not> is_error then
               (case numba_buffer_adaptor env buf nativeary w1 of
                  ((_, outs'), w2) \<Rightarrow>
                    (\<lparr>nv_value = out1 nativeary outs',
                      is_error = is_error,
                      cleanup = Some (release_buffer env buf)\<rparr>, w2))
             else (\<lparr>nv_value = nativeary, is_error = is_error,
                    cleanup = Some (release_buffer env buf)\<rparr>, w1))"

text \<open>\<^verbatim>\<open>to_native_array\<close>: the native array and whether the adaptor failed.\<close>

definition to_native_array ::
  "'o runtime \<Rightarrow> 'o native \<Rightarrow> 'o world \<Rightarrow> ('o native \<times> bool) \<times> 'o world" where
  "to_native_array env ary w =
     (case numba_array_adaptor env ary alloca_once w of
        ((errcode, outs), w1) \<Rightarrow> ((out1 alloca_once outs, is_not_null errcode), w1))"

text \<open>\<^verbatim>\<open>to_native_generator\<close>.\<close>

definition to_native_generator :: "'o runtime \<Rightarrow> 'o native \<Rightarrow> 'o NativeValue" where
  "to_native_generator env obj =
     \<lparr>nv_value = (case obj of NObj p \<Rightarrow> generator_state env p | _ \<Rightarrow> NUndef),
      is_error = False, cleanup = None\<rparr>"

text \<open>
  \<^verbatim>\<open>to_native_optional\<close>. \<open>inner\<close> is \<^verbatim>\<open>self.to_native_value(obj, typ.type)\<close>, the code of
  the branch taken when the object is not \<^verbatim>\<open>None\<close>: generating it may raise, and
  whether it has a cleanup is known when the code is generated. When the object is
  \<^verbatim>\<open>None\<close> that code does not run: the world is the one before the conversion, the
  value is the absent optional and the error slot keeps its initial false bit.
\<close>

definition to_native_optional ::
  "'o runtime \<Rightarrow> 'o native \<Rightarrow> (py_exception + 'o NativeValue \<times> 'o world) \<Rightarrow> 'o world \<Rightarrow>
   py_exception + 'o NativeValue \<times> 'o world" where
  "to_native_optional env obj inner w =
     (case inner of
        Inl e \<Rightarrow> Inl e
      | Inr (native, w') \<Rightarrow>
          let noneval = make_optional_none;
              is_not_none = (obj \<noteq> borrow_none env);
              cleanup' =
                (case cleanup native of
                   None \<Rightarrow> None
                 | Some c \<Rightarrow> Some (\<lambda>w. if is_not_none then c w else w))
          in if is_not_none then
               Inr (\<lparr>nv_value = make_optional_value (nv_value native),
                     is_error = is_error native, cleanup = cleanup'\<rparr>, w')
             else
               Inr (\<lparr>nv_value = noneval, is_error = False, cleanup = cleanup'\<rparr>, w))"

text \<open>
  The end of \<^verbatim>\<open>to_native_tuple\<close>, after the loop over the elements has filled
  \<open>values\<close>, \<open>cleanups\<close> and \<open>is_error\<close>: the combined cleanup runs the collected cleanups
  in reverse, and the values are packed.
\<close>

definition to_native_tuple_result ::
  "bool \<Rightarrow> 'o native list \<Rightarrow> bool \<Rightarrow> ('o world \<Rightarrow> 'o world) list \<Rightarrow> 'o NativeValue" where
  "to_native_tuple_result is_unituple values is_err cleanups =
     \<lparr>nv_value = (if is_unituple then pack_array values else make_anonymous_struct values),
      is_error = is_err,
      cleanup = (if cleanups \<noteq> [] then Some (\<lambda>w. fold (\<lambda>func w. func w) (rev cleanups) w)
                 else None)\<rparr>"

text \<open>
  The branch of \<^verbatim>\<open>to_native_value\<close> for \<^verbatim>\<open>complex128\<close> and \<^verbatim>\<open>complex64\<close>. The adaptor
  fills a complex128 structure; a failure sets a \<^verbatim>\<open>TypeError\<close>; for complex64 the
  parts are narrowed to float.
\<close>

definition to_native_complex ::
  "'o runtime \<Rightarrow> 'o native \<Rightarrow> bool \<Rightarrow> 'o world \<Rightarrow> 'o NativeValue \<times> 'o world" where
  "to_native_complex env obj is_complex64 w =
     (case complex_adaptor env obj alloca_once w of
        ((ok, outs), w1) \<Rightarrow>
          let cplx = out1 alloca_once outs;
              failed = is_false ok;
              w2 = (if failed
                    then err_set_string env ''PyExc_TypeError''
                           (if is_complex64 then ''conversion to complex64 failed''
                            else ''conversion to complex128 failed'') w1
                    else w1)
          in if is_complex64 then
               (\<lparr>nv_value = NStruct [fptrunc_native env (extract_value cplx 0),
                                      fptrunc_native env (extract_value cplx 1)],
                 is_error = failed, cleanup = None\<rparr>, w2)
             else (\<lparr>nv_value = cplx, is_error = failed, cleanup = None\<rparr>, w2))"

text \<open>The branch for a record: the buffer is released by the cleanup.\<close>

definition to_native_record ::
  "'o runtime \<Rightarrow> 'o native \<Rightarrow> 'o world \<Rightarrow> 'o NativeValue \<times> 'o world" where
  "to_native_record env obj w =
     (case extract_record_data env obj alloca_buffer w of
        ((ptr, outs), w1) \<Rightarrow>
          let buf = out1 alloca_buffer outs
          in (\<lparr>nv_value = ptr, is_error = is_null ptr,
                cleanup = Some (release_buffer env buf)\<rparr>, w1))"

text \<open>
  The branch for an external function pointer whose type has a \<^verbatim>\<open>get_pointer\<close>:
  the callable is unpickled and called on the object, and its integer result becomes
  the address.
\<close>

definition to_native_function_pointer ::
  "'o runtime \<Rightarrow> 'o native \<Rightarrow> gname \<Rightarrow> 'o world \<Rightarrow> 'o NativeValue \<times> 'o world" where
  "to_native_function_pointer env obj ser w =
     (case unserialize env (NGlobal ser) w of
        ((get_pointer, _), w1) \<Rightarrow>
          (case
             (if is_not_null get_pointer then
                (case call_function_objargs env get_pointer [obj] w1 of
                   ((intobj, _), w2) \<Rightarrow>
                     let w3 = decref env get_pointer w2
                     in if is_not_null intobj then
                          (case long_as_voidptr env intobj w3 of
                             ((ptr, _), w4) \<Rightarrow> (ptr, decref env intobj w4))
                        else (NPtr 0, w3))
              else (NPtr 0, w1))
           of (ret, w5) \<Rightarrow>
             (case c_api_error w5 of
                (e, w6) \<Rightarrow> (\<lparr>nv_value = ret, is_error = e, cleanup = None\<rparr>, w6))))"

text \<open>
  \<^verbatim>\<open>to_native_value\<close>, with the loop of \<^verbatim>\<open>to_native_tuple\<close> over the element types:
  one loop for a \<^verbatim>\<open>Tuple\<close>, one for a \<^verbatim>\<open>UniTuple\<close>, whose elements all have the type
  \<open>dtype\<close>. The loops carry \<open>values\<close>, \<open>is_error\<close> and \<open>cleanups\<close>. A type without a
  branch makes the code generation raise \<^verbatim>\<open>NotImplementedError\<close>.
\<close>

fun to_native_value ::
    "'o runtime \<Rightarrow> 'o native \<Rightarrow> ty \<Rightarrow> 'o world \<Rightarrow>
     py_exception + 'o NativeValue \<times> 'o world"
  and to_native_tuple_loop ::
    "'o runtime \<Rightarrow> 'o native \<Rightarrow> nat \<Rightarrow> ty list \<Rightarrow>
     'o native list \<Rightarrow> bool \<Rightarrow> ('o world \<Rightarrow> 'o world) list \<Rightarrow> 'o world \<Rightarrow>
     py_exception + ('o native list \<times> bool \<times> ('o world \<Rightarrow> 'o world) list) \<times> 'o world"
  and to_native_unituple_loop ::
    "'o runtime \<Rightarrow> 'o native \<Rightarrow> nat \<Rightarrow> ty \<Rightarrow> nat \<Rightarrow>
     'o native list \<Rightarrow> bool \<Rightarrow> ('o world \<Rightarrow> 'o world) list \<Rightarrow> 'o world \<Rightarrow>
     py_exception + ('o native list \<times> bool \<times> ('o world \<Rightarrow> 'o world) list) \<times> 'o world"
where
  "to_native_value env obj Pyobject w =
     Inr (\<lparr>nv_value = obj, is_error = False, cleanup = None\<rparr>, w)"
| "to_native_value env obj Object w =
     Inr (\<lparr>nv_value = obj, is_error = False, cleanup = None\<rparr>, w)"
| "to_native_value env obj Boolean w =
     (case object_istrue env obj w of
        ((istrue, _), w1) \<Rightarrow>
          (case c_api_error w1 of
             (e, w2) \<Rightarrow>
               Inr (\<lparr>nv_value = bit (is_not_null istrue), is_error = e, cleanup = None\<rparr>, w2)))"
| "to_native_value env obj (Integer is_signed bitwidth) w =
     (case to_native_int env obj is_signed bitwidth w of
        (val, w1) \<Rightarrow>
          (case c_api_error w1 of
             (e, w2) \<Rightarrow> Inr (\<lparr>nv_value = val, is_error = e, cleanup = None\<rparr>, w2)))"
| "to_native_value env obj Float32 w =
     (case number_float env obj w of
        ((fobj, _), w1) \<Rightarrow>
          (case float_as_double env fobj w1 of
             ((fval, _), w2) \<Rightarrow>
               (case c_api_error (decref env fobj w2) of
                  (e, w3) \<Rightarrow>
                    Inr (\<lparr>nv_value = fptrunc_native env fval, is_error = e,
                          cleanup = None\<rparr>, w3))))"
| "to_native_value env obj Float64 w =
     (case number_float env obj w of
        ((fobj, _), w1) \<Rightarrow>
          (case float_as_double env fobj w1 of
             ((val, _), w2) \<Rightarrow>
               (case c_api_error (decref env fobj w2) of
                  (e, w3) \<Rightarrow> Inr (\<lparr>nv_value = val, is_error = e, cleanup = None\<rparr>, w3))))"
| "to_native_value env obj Complex128 w = Inr (to_native_complex env obj False w)"
| "to_native_value env obj Complex64 w = Inr (to_native_complex env obj True w)"
| "to_native_value env obj (NPDatetime unit_code) w =
     (case extract_np_datetime env obj w of
        ((val, _), w1) \<Rightarrow>
          (case c_api_error w1 of
             (e, w2) \<Rightarrow> Inr (\<lparr>nv_value = val, is_error = e, cleanup = None\<rparr>, w2)))"
| "to_native_value env obj (NPTimedelta unit_code) w =
     (case extract_np_timedelta env obj w of
        ((val, _), w1) \<Rightarrow>
          (case c_api_error w1 of
             (e, w2) \<Rightarrow> Inr (\<lparr>nv_value = val, is_error = e, cleanup = None\<rparr>, w2)))"
| "to_native_value env obj (Record n dtype) w = Inr (to_native_record env obj w)"
| "to_native_value env obj Array w =
     (case to_native_array env obj w of
        ((val, failed), w1) \<Rightarrow>
          Inr (\<lparr>nv_value = val, is_error = failed, cleanup = None\<rparr>, w1))"
| "to_native_value env obj Buffer w = Inr (to_native_buffer env obj w)"
| "to_native_value env obj (Optional t) w =
     to_native_optional env obj (to_native_value env obj t w) w"
| "to_native_value env obj (Tuple ts) w =
     (case to_native_tuple_loop env obj 0 ts [] False [] w of
        Inl e \<Rightarrow> Inl e
      | Inr ((values, is_err, cleanups), w') \<Rightarrow>
          Inr (to_native_tuple_result False values is_err cleanups, w'))"
| "to_native_value env obj (UniTuple dtype count) w =
     (case to_native_unituple_loop env obj 0 dtype count [] False [] w of
        Inl e \<Rightarrow> Inl e
      | Inr ((values, is_err, cleanups), w') \<Rightarrow>
          Inr (to_native_tuple_result True values is_err cleanups, w'))"
| "to_native_value env obj (Generator desc has_finalizer) w =
     Inr (to_native_generator env obj, w)"
| "to_native_value env obj (ExternalFunctionPointer (Some ser)) w =
     Inr (to_native_function_pointer env obj ser w)"
| "to_native_value env obj (ExternalFunctionPointer None) w =
     Inl (NotImplementedError ''cannot convert to native value'')"
| "to_native_value env obj NoneType w =
     Inl (NotImplementedError ''cannot convert to native value'')"
| "to_native_value env obj (CharSeq n) w =
     Inl (NotImplementedError ''cannot convert to native value'')"
| "to_native_tuple_loop env obj i [] values is_err cleanups w =
     Inr ((values, is_err, cleanups), w)"
| "to_native_tuple_loop env obj i (eltype # rest) values is_err cleanups w =
     (case tuple_getitem env obj i w of
        ((elem, _), w1) \<Rightarrow>
          (case to_native_value env elem eltype w1 of
             Inl e \<Rightarrow> Inl e
           | Inr (native, w2) \<Rightarrow>
               to_native_tuple_loop env obj (Suc i) rest
                 (values @ [nv_value native])
                 (is_err \<or> is_error native)
                 (case cleanup native of None \<Rightarrow> cleanups | Some c \<Rightarrow> cleanups @ [c])
                 w2))"
| "to_native_unituple_loop env obj i dtype 0 values is_err cleanups w =
     Inr ((values, is_err, cleanups), w)"
| "to_native_unituple_loop env obj i dtype (Suc remaining) values is_err cleanups w =
     (case tuple_getitem env obj i w of
        ((elem, _), w1) \<Rightarrow>
          (case to_native_value env elem dtype w1 of
             Inl e \<Rightarrow> Inl e
           | Inr (native, w2) \<Rightarrow>
               to_native_unituple_loop env obj (Suc i) dtype remaining
                 (values @ [nv_value native])
                 (is_err \<or> is_error native)
                 (case cleanup native of None \<Rightarrow> cleanups | Some c \<Rightarrow> cleanups @ [c])
                 w2))"

section \<open>PythonAPI: from native values to objects\<close>

text \<open>
  Modelled from the spec: \<^verbatim>\<open>types.signed_domain\<close> and \<^verbatim>\<open>types.unsigned_domain\<close> are not
  among the sources. They hold the signed and the unsigned integer types of the
  catalogue, of 8, 16, 32 and 64 bits.
\<close>

definition in_integer_domain :: "nat \<Rightarrow> bool" where
  "in_integer_domain bitwidth = (bitwidth \<in> {8, 16, 32, 64})"

text \<open>
  \<^verbatim>\<open>_long_from_native_int\<close>. Under Python 2 a number that fits a C long becomes an
  \<^verbatim>\<open>int\<close> object through \<^verbatim>\<open>PyInt_FromLong\<close>.
\<close>

definition long_from_native_int ::
  "'o runtime \<Rightarrow> 'o native \<Rightarrow> cfunc \<Rightarrow> bool \<Rightarrow> 'o world \<Rightarrow>
   ('o native \<times> 'o native list) \<times> 'o world" where
  "long_from_native_int env ival func is_signed w =
     (if pyversion_lt3 env then
        let use_pyint =
              (case ival of
                 NInt bw v \<Rightarrow>
                   if is_signed
                   then long_min env \<le> signed_value bw v \<and> signed_value bw v \<le> long_max env
                   else int (v mod 2 ^ bw) \<le> long_max env
               | _ \<Rightarrow> False)
        in if use_pyint then ccall env PyInt_FromLong [trunc ival (long_bits env)] w
           else ccall env func [ival] w
      else ccall env func [ival] w)"

definition long_from_longlong where
  "long_from_longlong env ival w = long_from_native_int env ival PyLong_FromLongLong True w"

definition long_from_ulonglong where
  "long_from_ulonglong env ival w =
     long_from_native_int env ival PyLong_FromUnsignedLongLong False w"

text \<open>
  \<^verbatim>\<open>from_native_array\<close>: the parent object of the native array, with one more
  reference.
\<close>

definition from_native_array :: "'o runtime \<Rightarrow> 'o native \<Rightarrow> 'o world \<Rightarrow> 'o native \<times> 'o world" where
  "from_native_array env ary w =
     (let parent = NObj (array_parent env ary) in (parent, incref env parent w))"

text \<open>
  \<^verbatim>\<open>from_native_generator\<close>, with \<open>env\<close> absent: a new generator object from the size
  of the state structure, the state, the resume function and the finaliser.
\<close>

definition from_native_generator ::
  "'o runtime \<Rightarrow> 'o native \<Rightarrow> nat \<Rightarrow> bool \<Rightarrow> 'o world \<Rightarrow>
   ('o native \<times> 'o native list) \<times> 'o world" where
  "from_native_generator env val desc has_finalizer w =
     ccall env numba_make_generator
       [NInt 64 (abi_sizeof env desc), val, NGlobal (Cpython_wrapper desc),
        (if has_finalizer then NGlobal (Finalizer desc) else NPtr 0), NObj None] w"

text \<open>
  \<^verbatim>\<open>from_native_charseq\<close>: the length is the index of the first null character among
  the first \<open>count\<close>, or \<open>count\<close> when there is none.
\<close>

definition charseq_strlen :: "nat \<Rightarrow> 'o native \<Rightarrow> nat" where
  "charseq_strlen count val =
     (case val of
        NArray chars \<Rightarrow> length (takeWhile (\<lambda>ch. \<not> is_null ch) (take count chars))
      | _ \<Rightarrow> 0)"

definition from_native_charseq ::
  "'o runtime \<Rightarrow> 'o native \<Rightarrow> nat \<Rightarrow> 'o world \<Rightarrow> ('o native \<times> 'o native list) \<times> 'o world" where
  "from_native_charseq env val count w =
     bytes_from_string_and_size env val (NInt 64 (charseq_strlen count val)) w"

text \<open>
  \<^verbatim>\<open>from_native_value\<close>, with the loop of \<^verbatim>\<open>from_native_tuple\<close> over the element
  types. The loop carries the tuple object, which \<^verbatim>\<open>PyTuple_SetItem\<close> updates.
  An optional is converted as a value of its inner type.
\<close>

fun from_native_value ::
    "'o runtime \<Rightarrow> 'o native \<Rightarrow> ty \<Rightarrow> 'o world \<Rightarrow> py_exception + 'o native \<times> 'o world"
  and from_native_tuple_loop ::
    "'o runtime \<Rightarrow> 'o native \<Rightarrow> nat \<Rightarrow> ty list \<Rightarrow> 'o native \<Rightarrow> 'o world \<Rightarrow>
     py_exception + 'o native \<times> 'o world"
  and from_native_unituple_loop ::
    "'o runtime \<Rightarrow> 'o native \<Rightarrow> nat \<Rightarrow> ty \<Rightarrow> nat \<Rightarrow> 'o native \<Rightarrow> 'o world \<Rightarrow>
     py_exception + 'o native \<times> 'o world"
where
  "from_native_value env val Pyobject w = Inr (val, w)"
| "from_native_value env val Boolean w =
     (case bool_from_long env (zext val (long_bits env)) w of
        ((obj, _), w1) \<Rightarrow> Inr (obj, w1))"
| "from_native_value env val (Integer is_signed bitwidth) w =
     (if \<not> in_integer_domain bitwidth
      then Inl (NotImplementedError ''cannot convert native value'')
      else if \<not> is_signed then
        (case long_from_ulonglong env (zext val 64) w of ((obj, _), w1) \<Rightarrow> Inr (obj, w1))
      else
        (case long_from_longlong env (sext val 64) w of ((obj, _), w1) \<Rightarrow> Inr (obj, w1)))"
| "from_native_value env val Float32 w =
     (case float_from_double env (fpext_native env val) w of
        ((obj, _), w1) \<Rightarrow> Inr (obj, w1))"
| "from_native_value env val Float64 w =
     (case float_from_double env val w of ((obj, _), w1) \<Rightarrow> Inr (obj, w1))"
| "from_native_value env val Complex128 w =
     (case complex_from_doubles env (extract_value val 0) (extract_value val 1) w of
        ((obj, _), w1) \<Rightarrow> Inr (obj, w1))"
| "from_native_value env val Complex64 w =
     (case complex_from_doubles env (fpext_native env (extract_value val 0))
             (fpext_native env (extract_value val 1)) w of
        ((obj, _), w1) \<Rightarrow> Inr (obj, w1))"
| "from_native_value env val (NPDatetime unit_code) w =
     (case create_np_datetime env val unit_code w of ((obj, _), w1) \<Rightarrow> Inr (obj, w1))"
| "from_native_value env val (NPTimedelta unit_code) w =
     (case create_np_timedelta env val unit_code w of ((obj, _), w1) \<Rightarrow> Inr (obj, w1))"
| "from_native_value env val NoneType w = Inr (make_none env w)"
| "from_native_value env val (Optional t) w = from_native_value env val t w"
| "from_native_value env val Array w = Inr (from_native_array env val w)"
| "from_native_value env val (Record n dtype) w =
     (case recreate_record env val (NInt 32 n) (NPtr dtype) w of
        ((obj, _), w1) \<Rightarrow> Inr (obj, w1))"
| "from_native_value env val (Tuple ts) w =
     (case tuple_new env (length ts) w of
        ((tuple_val, _), w1) \<Rightarrow> from_native_tuple_loop env val 0 ts tuple_val w1)"
| "from_native_value env val (UniTuple dtype count) w =
     (case tuple_new env count w of
        ((tuple_val, _), w1) \<Rightarrow> from_native_unituple_loop env val 0 dtype count tuple_val w1)"
| "from_native_value env val (Generator desc has_finalizer) w =
     (case from_native_generator env val desc has_finalizer w of
        ((obj, _), w1) \<Rightarrow> Inr (obj, w1))"
| "from_native_value env val (CharSeq count) w =
     (case from_native_charseq env val count w of ((obj, _), w1) \<Rightarrow> Inr (obj, w1))"
| "from_native_value env val Object w =
     Inl (NotImplementedError ''cannot convert native value'')"
| "from_native_value env val Buffer w =
     Inl (NotImplementedError ''cannot convert native value'')"
| "from_native_value env val (ExternalFunctionPointer get_pointer) w =
     Inl (NotImplementedError ''cannot convert native value'')"
| "from_native_tuple_loop env val i [] tuple_val w = Inr (tuple_val, w)"
| "from_native_tuple_loop env val i (dtype # rest) tuple_val w =
     (case from_native_value env (extract_value val i) dtype w of
        Inl e \<Rightarrow> Inl e
      | Inr (obj, w1) \<Rightarrow>
          (case tuple_setitem env tuple_val i obj w1 of
             ((_, outs), w2) \<Rightarrow>
               from_native_tuple_loop env val (Suc i) rest (out1 tuple_val outs) w2))"
| "from_native_unituple_loop env val i dtype 0 tuple_val w = Inr (tuple_val, w)"
| "from_native_unituple_loop env val i dtype (Suc remaining) tuple_val w =
     (case from_native_value env (extract_value val i) dtype w of
        Inl e \<Rightarrow> Inl e
      | Inr (obj, w1) \<Rightarrow>
          (case tuple_setitem env tuple_val i obj w1 of
             ((_, outs), w2) \<Rightarrow>
               from_native_unituple_loop env val (Suc i) dtype remaining
                 (out1 tuple_val outs) w2))"

section \<open>A runtime to run the examples\<close>

text \<open>
  Objects of a small runtime, as values: \<^verbatim>\<open>None\<close>, booleans, Python 2 integers, long
  integers, floats and complex numbers by the bits of their doubles, datetimes and
  timedeltas by value and unit, tuples with their slots (a slot is null until it is
  set), records by the address of their data, and strings.
\<close>

datatype pyobj =
    PyNone
  | PyBool bool
  | PyInt int
  | PyLong int
  | PyFloat "64 word"
  | PyComplex "64 word" "64 word"
  | PyDatetime nat nat
  | PyTimedelta nat nat
  | PyTuple "pyobj option list"
  | PyRecord nat
  | PyStr string

definition truth :: "pyobj \<Rightarrow> bool" where
  "truth x =
     (case x of
        PyNone \<Rightarrow> False
      | PyBool b \<Rightarrow> b
      | PyInt n \<Rightarrow> n \<noteq> 0
      | PyLong n \<Rightarrow> n \<noteq> 0
      | PyFloat d \<Rightarrow> take_bit 63 d \<noteq> 0
      | PyComplex r i \<Rightarrow> take_bit 63 r \<noteq> 0 \<or> take_bit 63 i \<noteq> 0
      | PyTuple xs \<Rightarrow> xs \<noteq> []
      | PyStr s \<Rightarrow> s \<noteq> []
      | _ \<Rightarrow> True)"

definition as_long :: "pyobj \<Rightarrow> int option" where
  "as_long x =
     (case x of
        PyBool b \<Rightarrow> Some (if b then 1 else 0)
      | PyInt n \<Rightarrow> Some n
      | PyLong n \<Rightarrow> Some n
      | _ \<Rightarrow> None)"

text \<open>The results of a call: a returned value, an object, a failure.\<close>

definition returns :: "pyobj native \<Rightarrow> pyobj native \<times> pyobj native list \<times> bool" where
  "returns v = (v, [], False)"

definition returns_obj :: "pyobj \<Rightarrow> pyobj native \<times> pyobj native list \<times> bool" where
  "returns_obj x = (NObj (Some x), [], False)"

definition raises :: "pyobj native \<Rightarrow> pyobj native \<times> pyobj native list \<times> bool" where
  "raises v = (v, [], True)"

text \<open>
  The C functions on these objects. A function applied to what it does not accept
  raises and returns its error value: a null pointer, or \<open>-1\<close>. Conversions from
  integers to floats and from floats to integers are left out: they raise.
\<close>

definition example_extern ::
  "cfunc \<Rightarrow> pyobj native list \<Rightarrow> pyobj native \<times> pyobj native list \<times> bool" where
  "example_extern fn args =
     (case fn of
        Py_IncRef \<Rightarrow> returns NUndef
      | Py_DecRef \<Rightarrow> returns NUndef
      | PyObject_IsTrue \<Rightarrow>
          (case args of
             [NObj (Some x)] \<Rightarrow> returns (NInt 32 (if truth x then 1 else 0))
           | _ \<Rightarrow> raises (NInt 32 (2 ^ 32 - 1)))
      | PyBool_FromLong \<Rightarrow>
          (case args of
             [NInt w v] \<Rightarrow> returns_obj (PyBool (v mod 2 ^ w \<noteq> 0))
           | _ \<Rightarrow> raises (NObj None))
      | PyNumber_Long \<Rightarrow>
          (case args of
             [NObj (Some x)] \<Rightarrow>
               (case as_long x of Some n \<Rightarrow> returns_obj (PyLong n) | None \<Rightarrow> raises (NObj None))
           | _ \<Rightarrow> raises (NObj None))
      | PyLong_AsLongLong \<Rightarrow>
          (case args of
             [NObj (Some x)] \<Rightarrow>
               (case as_long x of
                  Some n \<Rightarrow>
                    if - (2 ^ 63) \<le> n \<and> n < 2 ^ 63 then returns (NInt 64 (nat (n mod 2 ^ 64)))
                    else raises (NInt 64 (2 ^ 64 - 1))
                | None \<Rightarrow> raises (NInt 64 (2 ^ 64 - 1)))
           | _ \<Rightarrow> raises (NInt 64 (2 ^ 64 - 1)))
      | PyLong_AsUnsignedLongLong \<Rightarrow>
          (case args of
             [NObj (Some (PyLong n))] \<Rightarrow>
               if 0 \<le> n \<and> n < 2 ^ 64 then returns (NInt 64 (nat n))
               else raises (NInt 64 (2 ^ 64 - 1))
           | _ \<Rightarrow> raises (NInt 64 (2 ^ 64 - 1)))
      | PyLong_AsVoidPtr \<Rightarrow>
          (case args of
             [NObj (Some x)] \<Rightarrow>
               (case as_long x of
                  Some n \<Rightarrow> if 0 \<le> n \<and> n < 2 ^ 64 then returns (NPtr (nat n))
                            else raises (NPtr 0)
                | None \<Rightarrow> raises (NPtr 0))
           | _ \<Rightarrow> raises (NPtr 0))
      | PyInt_FromLong \<Rightarrow>
          (case args of
             [NInt w v] \<Rightarrow> returns_obj (PyInt (signed_value w v))
           | _ \<Rightarrow> raises (NObj None))
      | PyLong_FromLongLong \<Rightarrow>
          (case args of
             [NInt w v] \<Rightarrow> returns_obj (PyLong (signed_value w v))
           | _ \<Rightarrow> raises (NObj None))
      | PyLong_FromUnsignedLongLong \<Rightarrow>
          (case args of
             [NInt w v] \<Rightarrow> returns_obj (PyLong (int (v mod 2 ^ w)))
           | _ \<Rightarrow> raises (NObj None))
      | PyNumber_Float \<Rightarrow>
          (case args of
             [NObj (Some (PyFloat d))] \<Rightarrow> returns_obj (PyFloat d)
           | _ \<Rightarrow> raises (NObj None))
      | PyFloat_AsDouble \<Rightarrow>
          (case args of
             [NObj (Some (PyFloat d))] \<Rightarrow> returns (NDouble d)
           | _ \<Rightarrow> raises (NDouble 0xBFF0000000000000))
      | PyFloat_FromDouble \<Rightarrow>
          (case args of
             [NDouble d] \<Rightarrow> returns_obj (PyFloat d)
           | _ \<Rightarrow> raises (NObj None))
      | PyComplex_FromDoubles \<Rightarrow>
          (case args of
             [NDouble r, NDouble i] \<Rightarrow> returns_obj (PyComplex r i)
           | _ \<Rightarrow> raises (NObj None))
      | numba_complex_adaptor \<Rightarrow>
          (case args of
             [NObj (Some (PyComplex r i)), _] \<Rightarrow>
               (NInt 32 1, [NStruct [NDouble r, NDouble i]], False)
           | _ \<Rightarrow> returns (NInt 32 0))
      | PyTuple_GetItem \<Rightarrow>
          (case args of
             [NObj (Some (PyTuple xs)), NInt w i] \<Rightarrow>
               if i < length xs then returns (NObj (xs ! i)) else raises (NObj None)
           | _ \<Rightarrow> raises (NObj None))
      | PyTuple_New \<Rightarrow>
          (case args of
             [NInt w n] \<Rightarrow> returns_obj (PyTuple (replicate n None))
           | _ \<Rightarrow> raises (NObj None))
      | PyTuple_SetItem \<Rightarrow>
          (case args of
             [NObj (Some (PyTuple xs)), NInt w i, NObj x] \<Rightarrow>
               if i < length xs
               then (NInt 32 0, [NObj (Some (PyTuple (xs[i := x])))], False)
               else raises (NInt 32 (2 ^ 32 - 1))
           | _ \<Rightarrow> raises (NInt 32 (2 ^ 32 - 1)))
      | numba_extract_record_data \<Rightarrow>
          (case args of
             [NObj (Some (PyRecord a)), _] \<Rightarrow> (NPtr a, [NPtr a], False)
           | _ \<Rightarrow> raises (NPtr 0))
      | numba_get_buffer \<Rightarrow>
          (case args of
             [NObj (Some (PyRecord a)), _] \<Rightarrow> (NInt 32 0, [NPtr a], False)
           | _ \<Rightarrow> raises (NInt 32 (2 ^ 32 - 1)))
      | numba_release_buffer \<Rightarrow> returns NUndef
      | numba_adapt_buffer \<Rightarrow>
          (case args of
             [buf, _] \<Rightarrow> (NUndef, [NStruct [buf]], False)
           | _ \<Rightarrow> returns NUndef)
      | numba_create_np_datetime \<Rightarrow>
          (case args of
             [NInt w v, NInt w' u] \<Rightarrow> returns_obj (PyDatetime v u)
           | _ \<Rightarrow> raises (NObj None))
      | numba_create_np_timedelta \<Rightarrow>
          (case args of
             [NInt w v, NInt w' u] \<Rightarrow> returns_obj (PyTimedelta v u)
           | _ \<Rightarrow> raises (NObj None))
      | numba_extract_np_datetime \<Rightarrow>
          (case args of
             [NObj (Some (PyDatetime v u))] \<Rightarrow> returns (NInt 64 v)
           | _ \<Rightarrow> raises (NInt 64 (2 ^ 64 - 1)))
      | numba_extract_np_timedelta \<Rightarrow>
          (case args of
             [NObj (Some (PyTimedelta v u))] \<Rightarrow> returns (NInt 64 v)
           | _ \<Rightarrow> raises (NInt 64 (2 ^ 64 - 1)))
      | _ \<Rightarrow> raises (NObj None))"

text \<open>
  The runtime: Python 3, a C long of 64 bits. The conversions between double and float
  are stand-ins that keep the 32 bits of the float. There are no generators and no
  arrays.
\<close>

definition example_runtime :: "pyobj runtime" where
  "example_runtime =
     \<lparr>extern = example_extern,
      c_object = (\<lambda>name. if name = ''Py_None'' then Some PyNone else None),
      fptrunc = ucast,
      fpext = ucast,
      pyversion_lt3 = False,
      long_bits = 64,
      long_min = - (2 ^ 63),
      long_max = 2 ^ 63 - 1,
      generator_state = (\<lambda>_. NPtr 0),
      array_parent = (\<lambda>_. None),
      abi_sizeof = (\<lambda>_. 0)\<rparr>"

text \<open>The world before any call.\<close>

definition world0 :: "'o world" where
  "world0 = \<lparr>err_indicator = False, calls = []\<rparr>"


section \<open>The element conversions of a tuple\<close>

text \<open>
  The conversions that the loop of \<^verbatim>\<open>to_native_tuple\<close> makes, one after the other from
  index \<open>i\<close>: \<^verbatim>\<open>elem = self.tuple_getitem(obj, i)\<close> and
  \<^verbatim>\<open>native = self.to_native_value(elem, eltype)\<close>, each in the world the one before left.
  The result lists the \<^verbatim>\<open>NativeValue\<close> of every element in conversion order.
\<close>

fun tuple_elements ::
  "'o runtime \<Rightarrow> 'o native \<Rightarrow> nat \<Rightarrow> ty list \<Rightarrow> 'o world \<Rightarrow>
   py_exception + 'o NativeValue list \<times> 'o world" where
  "tuple_elements env obj i [] w = Inr ([], w)"
| "tuple_elements env obj i (eltype # rest) w =
     (case tuple_getitem env obj i w of
        ((elem, _), w1) \<Rightarrow>
          (case to_native_value env elem eltype w1 of
             Inl e \<Rightarrow> Inl e
           | Inr (native, w2) \<Rightarrow>
               (case tuple_elements env obj (Suc i) rest w2 of
                  Inl e \<Rightarrow> Inl e
                | Inr (natives, w3) \<Rightarrow> Inr (native # natives, w3))))"

text \<open>
  Running cleanups in reverse of their order in the list, each once: the last of the
  list runs first.
\<close>

fun run_in_reverse :: "('w \<Rightarrow> 'w) list \<Rightarrow> 'w \<Rightarrow> 'w" where
  "run_in_reverse [] w = w"
| "run_in_reverse (func # funcs) w = func (run_in_reverse funcs w)"

text \<open>The cleanups that a list of element conversions produced, in conversion order.\<close>

definition element_cleanups :: "'o NativeValue list \<Rightarrow> ('o world \<Rightarrow> 'o world) list" where
  "element_cleanups natives = List.map_filter cleanup natives"
section \<open>Properties of slicing\<close>

subsection \<open>Signed reading of native integers\<close>

lemma sint_add_nowrap:
  "- (2 ^ 63) \<le> sint a + sint b \<Longrightarrow> sint a + sint b < 2 ^ 63 \<Longrightarrow>
   sint (a + b :: 64 word) = sint a + sint b"
  by (simp add: sint_word_ariths signed_take_bit_int_eq_self)

lemma sint_sub_nowrap:
  "- (2 ^ 63) \<le> sint a - sint b \<Longrightarrow> sint a - sint b < 2 ^ 63 \<Longrightarrow>
   sint (a - b :: 64 word) = sint a - sint b"
  by (simp add: sint_word_ariths signed_take_bit_int_eq_self)

lemma sint_of_int_nowrap:
  "- (2 ^ 63) \<le> k \<Longrightarrow> k < 2 ^ 63 \<Longrightarrow> sint (word_of_int k :: 64 word) = k"
  by (simp add: sint_sbintrunc' signed_take_bit_int_eq_self)

lemma sint_bounds64: "- (2 ^ 63) \<le> sint (a :: 64 word)" "sint (a :: 64 word) < 2 ^ 63"
  using sint_ge [of a] sint_lt [of a] by simp_all

lemma adjust_start_sint:
  assumes "0 \<le> sint extent"
  shows "sint (adjust_index extent neg start (extent - 1) 0 True hs) =
         contract_start (sint extent) neg (if hs then Some (sint start) else None)"
proof -
  have b: "sint extent < 2 ^ 63" "- (2 ^ 63) \<le> sint start" "sint start < 2 ^ 63"
    using sint_bounds64 by auto
  have m1: "sint (extent - 1) = sint extent - 1"
    using assms b sint_sub_nowrap [of extent 1] by simp
  have ad: "sint start < 0 \<Longrightarrow> sint (start + extent) = sint start + sint extent"
    using assms b sint_add_nowrap [of start extent] by simp
  show ?thesis
    using m1 ad
    by (auto simp: adjust_index_def adjust_given_index_def set_default_index_def
        contract_start_def word_sless_alt word_sle_eq Let_def)
qed

lemma adjust_stop_sint:
  assumes "0 \<le> sint extent"
  shows "sint (adjust_index extent neg stop (- 1) extent False hs) =
         contract_stop (sint extent) neg (if hs then Some (sint stop) else None)"
proof -
  have b: "sint extent < 2 ^ 63" "- (2 ^ 63) \<le> sint stop" "sint stop < 2 ^ 63"
    using sint_bounds64 by auto
  have ad: "sint stop < 0 \<Longrightarrow> sint (stop + extent) = sint stop + sint extent"
    using assms b sint_add_nowrap [of stop extent] by simp
  show ?thesis
    using ad
    by (auto simp: adjust_index_def adjust_given_index_def set_default_index_def
        contract_stop_def word_sless_alt word_sle_eq Let_def)
qed

lemma contract_start_bounds:
  assumes "0 \<le> E"
  shows "- 1 \<le> contract_start E neg s" "contract_start E neg s \<le> E"
        "neg \<Longrightarrow> contract_start E neg s \<le> max (E - 1) 0"
        "0 \<le> contract_start E neg s \<or> E = 0"
  using assms by (auto simp: contract_start_def split: option.splits)

lemma contract_stop_bounds:
  assumes "0 \<le> E"
  shows "- 1 \<le> contract_stop E neg s" "contract_stop E neg s \<le> E"
        "\<not> neg \<Longrightarrow> 0 \<le> contract_stop E neg s"
  using assms by (auto simp: contract_stop_def split: option.splits)

lemma contract_diff_bounds:
  assumes "0 \<le> E"
  shows "- max E 1 \<le> contract_stop E neg p - contract_start E neg s"
        "contract_stop E neg p - contract_start E neg s \<le> max E 1"
  using contract_start_bounds [OF assms, of neg s] contract_stop_bounds [OF assms, of neg p]
  by (cases neg; fastforce)+

lemma abs_sdiv_le: "\<bar>(k::int) sdiv l\<bar> \<le> \<bar>k\<bar>"
  using sdiv_int_range [of k l] by auto

lemma abs_smod_le: "\<bar>(k::int) smod l\<bar> \<le> \<bar>k\<bar>"
proof -
  have nn: "0 \<le> \<bar>k\<bar> mod \<bar>l\<bar>"
    by (cases "l = 0") simp_all
  have "\<bar>k smod l\<bar> = \<bar>sgn k\<bar> * (\<bar>k\<bar> mod \<bar>l\<bar>)"
    using nn by (simp add: smod_int_alt_def abs_mult)
  also have "\<dots> \<le> \<bar>k\<bar> mod \<bar>l\<bar>"
    using nn by (cases "k = 0") (simp_all add: abs_sgn_eq)
  also have "\<dots> \<le> \<bar>k\<bar>"
    by (rule zmod_le_nonneg_dividend) simp
  finally show ?thesis .
qed

lemma sdiv_lt_of_rem:
  assumes "(k::int) smod l \<noteq> 0" and "l \<noteq> 0"
  shows "\<bar>k sdiv l\<bar> < \<bar>k\<bar>"
proof -
  define a where "a = \<bar>k\<bar>"
  define b where "b = \<bar>l\<bar>"
  have k0: "k \<noteq> 0" using assms(1) by auto
  have b1: "1 \<le> b" using assms(2) by (simp add: b_def)
  have a0: "0 \<le> a" by (simp add: a_def)
  have r: "a mod b \<noteq> 0"
    using assms(1) by (auto simp: smod_int_alt_def a_def b_def)
  have d0: "0 \<le> a div b" using a0 b1 by (simp add: pos_imp_zdiv_nonneg_iff)
  have "0 < b" using b1 by linarith
  then have "0 \<le> a mod b" by simp
  then have "0 < a mod b" using r by linarith
  moreover have "a = (a div b) * b + a mod b" by simp
  ultimately have "(a div b) * b < a" by linarith
  moreover have "a div b \<le> (a div b) * b"
    using d0 b1 by (simp add: mult_le_cancel_left1)
  ultimately have lt: "a div b < a" by linarith
  have "\<bar>k sdiv l\<bar> = a div b"
    using k0 assms(2) d0 by (simp add: signed_divide_int_def abs_mult a_def b_def abs_sgn_eq)
  then show ?thesis using lt by (simp add: a_def)
qed

lemma smod_abs_lt: "l \<noteq> 0 \<Longrightarrow> \<bar>(k::int) smod l\<bar> < \<bar>l\<bar>"
  using smod_int_range [of l k] by auto


lemma sint_eq_0_iff64: "(a :: 64 word) = 0 \<longleftrightarrow> sint a = 0"
  using signed_eq_0_iff [of a] by auto

lemma ceil_div_if:
  "l \<noteq> 0 \<Longrightarrow> ceil_div d l = (if d mod l = 0 then d div l else d div l + 1)"
  by (simp add: ceil_div_def zdiv_zminus1_eq_if)

lemma trunc_pos:
  fixes d l :: int
  assumes "0 \<le> d" "0 < l"
  shows "d sdiv l = d div l" "d smod l = d mod l"
  using assms by (auto simp: signed_divide_int_def signed_modulo_int_def sgn_if)

lemma trunc_neg_pos:
  fixes d l :: int
  assumes "d < 0" "0 < l"
  shows "d sdiv l = - ((- d) div l)" "d smod l = - ((- d) mod l)"
  using assms by (auto simp: signed_divide_int_def signed_modulo_int_def sgn_if)

lemma extent_pos_pos:
  fixes d l :: int
  assumes "0 \<le> d" "0 < l"
  shows "(let q = d sdiv l; q' = (if d smod l \<noteq> 0 then q + 1 else q) in if q' < 0 then 0 else q')
       = (let n = ceil_div d l in if n < 0 then 0 else n)"
  using assms by (simp add: trunc_pos ceil_div_if Let_def)

lemma extent_neg_pos:
  fixes d l :: int
  assumes d: "d < 0" and l: "0 < l"
  shows "(let q = d sdiv l; q' = (if d smod l \<noteq> 0 then q + 1 else q) in if q' < 0 then 0 else q')
       = (if - d < l then 1 else 0)"
    and "(let n = ceil_div d l in if n < 0 then 0 else n) = 0"
proof -
  have c: "ceil_div d l = - ((- d) div l)" by (simp add: ceil_div_def)
  have nn: "0 \<le> (- d) div l" using d l by (simp add: pos_imp_zdiv_nonneg_iff)
  show "(let n = ceil_div d l in if n < 0 then 0 else n) = 0"
    using nn by (simp add: c Let_def)
  have z: "(- d) div l = 0 \<longleftrightarrow> - d < l" using d l
    by (simp add: div_eq_0_iff zdiv_eq_0_iff)
  have m: "- d < l \<Longrightarrow> (- d) mod l \<noteq> 0" using d l by simp
  have pos: "\<not> - d < l \<Longrightarrow> 0 < (- d) div l" using z nn by linarith
  show "(let q = d sdiv l; q' = (if d smod l \<noteq> 0 then q + 1 else q) in if q' < 0 then 0 else q')
       = (if - d < l then 1 else 0)"
    using z m pos nn d l by (auto simp: trunc_neg_pos Let_def)
qed

lemma sdiv_minus_minus: "(- d) sdiv (- l) = d sdiv (l::int)"
  by (simp add: signed_divide_int_def sgn_if)

lemma smod_minus_minus: "(- d) smod (- l) = - (d smod (l::int))"
  by (simp add: signed_modulo_int_def sgn_if)

lemma ceil_div_minus_minus: "ceil_div (- d) (- l) = ceil_div d l"
  using div_minus_right [of d l] by (simp add: ceil_div_def)

lemma extent_pos_divisor:
  fixes d l :: int
  assumes l: "0 < l"
  shows "(let q = d sdiv l; q' = (if d smod l \<noteq> 0 then q + 1 else q) in if q' < 0 then 0 else q')
       = (if d < 0 \<and> - d < l then 1 else (let n = ceil_div d l in if n < 0 then 0 else n))"
proof (cases "0 \<le> d")
  case True
  then show ?thesis using extent_pos_pos [OF True l] by simp
next
  case False
  then have d: "d < 0" by simp
  show ?thesis using extent_neg_pos [OF d l] d by simp
qed

text \<open>
  The quotient that truncates towards zero, plus one for a remainder, is the ceiling of the
  quotient only when the exact quotient is not negative. For a negative quotient that is
  not exact it is one more than the ceiling, which survives the clamp when the ceiling
  is 0: then the result is 1, where \<open>ceil_div\<close> gives 0.
\<close>

lemma trunc_extent_ceil:
  fixes d l :: int
  assumes l0: "l \<noteq> 0"
  shows "(let q = d sdiv l; q' = (if d smod l \<noteq> 0 then q + 1 else q) in if q' < 0 then 0 else q')
       = (if d * l < 0 \<and> \<bar>d\<bar> < \<bar>l\<bar> then 1
          else (let n = ceil_div d l in if n < 0 then 0 else n))"
proof (cases "0 < l")
  case True
  have c: "(d * l < 0 \<and> \<bar>d\<bar> < \<bar>l\<bar>) \<longleftrightarrow> (d < 0 \<and> - d < l)"
    using True by (auto simp: mult_less_0_iff)
  show ?thesis unfolding c by (rule extent_pos_divisor [OF True])
next
  case False
  then have l: "0 < - l" using l0 by simp
  have c: "(d * l < 0 \<and> \<bar>d\<bar> < \<bar>l\<bar>) \<longleftrightarrow> (- d < 0 \<and> - (- d) < - l)"
    using l by (auto simp: mult_less_0_iff)
  have "(let q = (- d) sdiv (- l); q' = (if (- d) smod (- l) \<noteq> 0 then q + 1 else q)
          in if q' < 0 then 0 else q')
       = (if - d < 0 \<and> - (- d) < - l then 1
          else (let n = ceil_div (- d) (- l) in if n < 0 then 0 else n))"
    by (rule extent_pos_divisor [OF l])
  then show ?thesis unfolding c
    by (simp only: sdiv_minus_minus smod_minus_minus ceil_div_minus_minus neg_equal_0_iff_equal)
qed

lemma new_extent_sint:
  fixes start stop step :: "64 word"
  assumes d1: "- (2 ^ 63) < sint stop - sint start" and d2: "sint stop - sint start < 2 ^ 63"
    and s0: "step \<noteq> 0"
  shows "\<exists>q r. intp_sdiv (stop - start) step = Some q \<and> intp_srem (stop - start) step = Some r
          \<and> sint (let ne = (if r \<noteq> 0 then q + 1 else q) in if ne <s 0 then 0 else ne)
              = (if (sint stop - sint start) * sint step < 0
                    \<and> \<bar>sint stop - sint start\<bar> < \<bar>sint step\<bar> then 1
                 else contract_new_extent (sint start) (sint stop) (sint step))"
proof -
  define d where "d = sint stop - sint start"
  define l where "l = sint step"
  have sd: "sint (stop - start) = d"
    using d1 d2 sint_sub_nowrap [of stop start] by (simp add: d_def)
  have l0: "l \<noteq> 0" using s0 by (simp add: l_def sint_eq_0_iff64)
  have dl: "- (2 ^ 63) < d" "d < 2 ^ 63" using d1 d2 by (simp_all add: d_def)
  have defd: "\<not> (step = 0 \<or> (sint (stop - start) = - (2 ^ 63) \<and> sint step = - 1))"
    using s0 sd dl by auto
  define q where "q = (word_of_int (d sdiv l) :: 64 word)"
  define r where "r = (word_of_int (d smod l) :: 64 word)"
  have qd: "intp_sdiv (stop - start) step = Some q"
    using defd by (simp add: intp_sdiv_def q_def sd l_def)
  have rd: "intp_srem (stop - start) step = Some r"
    using defd by (simp add: intp_srem_def r_def sd l_def)
  have qb: "\<bar>d sdiv l\<bar> \<le> \<bar>d\<bar>" by (rule abs_sdiv_le)
  have sq: "sint q = d sdiv l"
    unfolding q_def using qb dl by (intro sint_of_int_nowrap) linarith+
  have rb: "\<bar>d smod l\<bar> \<le> \<bar>d\<bar>" by (rule abs_smod_le)
  have sr: "sint r = d smod l"
    unfolding r_def using rb dl by (intro sint_of_int_nowrap) linarith+
  have r0: "r \<noteq> 0 \<longleftrightarrow> d smod l \<noteq> 0"
    by (simp add: sint_eq_0_iff64 sr)
  have sq1: "d smod l \<noteq> 0 \<Longrightarrow> sint (q + 1) = d sdiv l + 1"
  proof -
    assume "d smod l \<noteq> 0"
    then have "\<bar>d sdiv l\<bar> < \<bar>d\<bar>" using l0 by (rule sdiv_lt_of_rem)
    then have "- (2 ^ 63) \<le> sint q + sint (1 :: 64 word)" "sint q + sint (1 :: 64 word) < 2 ^ 63"
      using dl sq by auto
    then show ?thesis using sint_add_nowrap [of q 1] sq by simp
  qed
  have "sint (let ne = (if r \<noteq> 0 then q + 1 else q) in if ne <s 0 then 0 else ne)
          = (let q = d sdiv l; q' = (if d smod l \<noteq> 0 then q + 1 else q)
             in if q' < 0 then 0 else q')"
    using sq sq1 r0 by (auto simp: Let_def word_sless_alt)
  also have "\<dots> = (if d * l < 0 \<and> \<bar>d\<bar> < \<bar>l\<bar> then 1
                    else (let n = ceil_div d l in if n < 0 then 0 else n))"
    by (rule trunc_extent_ceil [OF l0])
  finally have "sint (let ne = (if r \<noteq> 0 then q + 1 else q) in if ne <s 0 then 0 else ne)
          = (if (sint stop - sint start) * sint step < 0
                \<and> \<bar>sint stop - sint start\<bar> < \<bar>sint step\<bar> then 1
             else contract_new_extent (sint start) (sint stop) (sint step))"
    by (simp add: contract_new_extent_def d_def l_def)
  then show ?thesis using qd rd by blast
qed


lemma SliceArray_body_contract:
  assumes rng: "src_dim < length in_shape" "src_dim < length in_strides"
               "dst_dim < length out_shape" "dst_dim < length out_strides"
    and ext: "0 \<le>s in_shape ! src_dim"
    and stp: "have_step \<longrightarrow> step \<noteq> 0"
  shows "\<exists>st. SliceArray_body have_start have_stop have_step data in_shape in_strides
               out_shape out_strides start stop step src_dim dst_dim = Some st
          \<and> sint (sl_step st) = contract_step (if have_step then Some (sint step) else None)
          \<and> sint (sl_start st) =
              contract_start (sint (in_shape ! src_dim)) (sint (sl_step st) < 0)
                (if have_start then Some (sint start) else None)
          \<and> sint (sl_stop st) =
              contract_stop (sint (in_shape ! src_dim)) (sint (sl_step st) < 0)
                (if have_stop then Some (sint stop) else None)
          \<and> sint (sl_new_extent st) =
              (if (sint (sl_stop st) - sint (sl_start st)) * sint (sl_step st) < 0
                  \<and> \<bar>sint (sl_stop st) - sint (sl_start st)\<bar> < \<bar>sint (sl_step st)\<bar> then 1
               else contract_new_extent (sint (sl_start st)) (sint (sl_stop st))
                      (sint (sl_step st)))
          \<and> sl_out_shape st = out_shape[dst_dim := sl_new_extent st]"
proof -
  define extent where "extent = in_shape ! src_dim"
  define step' where "step' = (if have_step then step else 1)"
  define neg where "neg = (step' <s 0)"
  define start' where
    "start' = adjust_index extent neg start (extent - 1) 0 True have_start"
  define stop' where
    "stop' = adjust_index extent neg stop (- 1) extent False have_stop"
  have E0: "0 \<le> sint extent" using ext by (simp add: word_sle_eq extent_def)
  have EB: "sint extent < 2 ^ 63" using sint_bounds64 by auto
  have s0: "step' \<noteq> 0" using stp by (simp add: step'_def)
  have negs: "neg = (sint step' < 0)" by (simp add: neg_def word_sless_alt)
  have ss: "sint step' = contract_step (if have_step then Some (sint step) else None)"
    by (simp add: step'_def contract_step_def)
  have sa: "sint start' = contract_start (sint extent) neg
              (if have_start then Some (sint start) else None)"
    unfolding start'_def using E0 by (rule adjust_start_sint)
  have sp: "sint stop' = contract_stop (sint extent) neg
              (if have_stop then Some (sint stop) else None)"
    unfolding stop'_def using E0 by (rule adjust_stop_sint)
  have db: "- max (sint extent) 1 \<le> sint stop' - sint start'"
           "sint stop' - sint start' \<le> max (sint extent) 1"
    unfolding sa sp using contract_diff_bounds [OF E0] by blast+
  have d1: "- (2 ^ 63) < sint stop' - sint start'" using db(1) EB by auto
  have d2: "sint stop' - sint start' < 2 ^ 63" using db(2) EB by auto
  obtain q r where qr: "intp_sdiv (stop' - start') step' = Some q"
      "intp_srem (stop' - start') step' = Some r"
      "sint (let ne = (if r \<noteq> 0 then q + 1 else q) in if ne <s 0 then 0 else ne)
         = (if (sint stop' - sint start') * sint step' < 0
               \<and> \<bar>sint stop' - sint start'\<bar> < \<bar>sint step'\<bar> then 1
            else contract_new_extent (sint start') (sint stop') (sint step'))"
    using new_extent_sint [OF d1 d2 s0] by blast
  define ne where "ne = (let n = (if r \<noteq> 0 then q + 1 else q) in if n <s 0 then 0 else n)"
  define stride where "stride = (if ne = 1 then 0 else in_strides ! src_dim)"
  have body: "SliceArray_body have_start have_stop have_step data in_shape in_strides
               out_shape out_strides start stop step src_dim dst_dim =
             Some \<lparr> sl_start = start', sl_stop = stop', sl_step = step', sl_new_extent = ne,
                     sl_result = data + start' * stride,
                     sl_in_strides = in_strides[src_dim := stride],
                     sl_out_shape = out_shape[dst_dim := ne],
                     sl_out_strides = out_strides[dst_dim := stride * step'] \<rparr>"
    using rng qr(1,2)
    unfolding stride_def ne_def start'_def stop'_def neg_def step'_def extent_def
    by (simp add: SliceArray_body_def Let_def)
  have sn: "sint ne =
      (if (sint stop' - sint start') * sint step' < 0
          \<and> \<bar>sint stop' - sint start'\<bar> < \<bar>sint step'\<bar> then 1
       else contract_new_extent (sint start') (sint stop') (sint step'))"
    using qr(3) by (simp add: ne_def)
  show ?thesis
    unfolding body using ss sa sp sn negs by (simp add: extent_def)
qed

subsection \<open>Normalisation of start, stop and step\<close>

text \<open>
  Claim C3. The contract gives the new extent as \<open>ceil_div (stop - start) step\<close>, clamped
  to 0. \<^verbatim>\<open>SliceArray.body\<close> divides with the machine's truncating \<^verbatim>\<open>/\<close> and adds one for
  a remainder that is not zero, which is one more than the ceiling when the exact quotient
  is negative. For the empty slice \<^verbatim>\<open>a[5:4:2]\<close> of an axis of extent 10, start, stop and
  step are normalised as the contract says (5, 4 and 2), but the new extent stored in the
  destination shape is 1, where the contract gives 0; the same happens for \<^verbatim>\<open>a[0:1:-2]\<close>.
  The two examples of the claim do hold: extent 10 with start \<open>-3\<close> and step 1 gives
  start 7 and extent 3, and extent 5 with start 0, stop 5 and step \<open>-1\<close> gives extent 0.
  A step of 0, as in \<^verbatim>\<open>a[::0]\<close>, divides by zero: the function has no defined result.
\<close>

theorem slice_empty_extent_one:
  "SliceArray_body True True True 1000 [10] [8] [0] [0] 5 4 2 0 0 =
     Some \<lparr> sl_start = 5, sl_stop = 4, sl_step = 2, sl_new_extent = 1,
            sl_result = 1000, sl_in_strides = [0], sl_out_shape = [1],
            sl_out_strides = [0] \<rparr>
   \<and> contract_start 10 False (Some 5) = 5 \<and> contract_stop 10 False (Some 4) = 4
   \<and> contract_step (Some 2) = 2 \<and> contract_new_extent 5 4 2 = 0
   \<and> SliceArray_body True True True 1000 [10] [8] [0] [0] 0 1 (- 2) 0 0 =
     Some \<lparr> sl_start = 0, sl_stop = 1, sl_step = - 2, sl_new_extent = 1,
            sl_result = 1000, sl_in_strides = [0], sl_out_shape = [1],
            sl_out_strides = [0] \<rparr>
   \<and> contract_start 10 True (Some 0) = 0 \<and> contract_stop 10 True (Some 1) = 1
   \<and> contract_step (Some (- 2)) = - 2 \<and> contract_new_extent 0 1 (- 2) = 0
   \<and> (\<exists>st. SliceArray_body True False True data [10] [stride] [e] [s] (- 3) stop 1 0 0 = Some st
        \<and> sl_start st = 7 \<and> sl_new_extent st = 3 \<and> sl_out_shape st = [3])
   \<and> contract_start 10 False (Some (- 3)) = 7 \<and> contract_stop 10 False None = 10
   \<and> contract_new_extent 7 10 1 = 3
   \<and> (\<exists>st. SliceArray_body True True True data [5] [stride] [e] [s] 0 5 (- 1) 0 0 = Some st
        \<and> sl_new_extent st = 0 \<and> sl_out_shape st = [0])
   \<and> contract_new_extent 0 5 (- 1) = 0
   \<and> SliceArray_body False False True 1000 [10] [8] [0] [0] 0 0 0 0 0 = None"
  by (simp add: SliceArray_body_def adjust_index_def adjust_given_index_def
      set_default_index_def intp_sdiv_def intp_srem_def Let_def word_sless_alt word_sle_eq
      signed_divide_int_def signed_modulo_int_def
      contract_start_def contract_stop_def contract_step_def contract_new_extent_def
      ceil_div_def)

subsection \<open>The data pointer of a slice of extent one\<close>

text \<open>
  Claim C2. The claim asks for a data pointer advanced by \<open>start\<close> times the original
  stride of the axis. \<^verbatim>\<open>SliceArray.body\<close> sets the stride to zero for a new extent of 1
  before it computes the pointer, so the slice \<^verbatim>\<open>a[3:4]\<close> of an axis of extent 10 and
  stride 8 returns the data pointer unchanged (1000) and not 1000 + 3 * 8.
\<close>

theorem slice_unit_extent_data_pointer:
  "SliceArray_body True True True 1000 [10] [8] [0] [0] 3 4 1 0 0 =
     Some \<lparr> sl_start = 3, sl_stop = 4, sl_step = 1, sl_new_extent = 1,
            sl_result = 1000, sl_in_strides = [0], sl_out_shape = [1],
            sl_out_strides = [0] \<rparr>
   \<and> (1000 :: 64 word) \<noteq> 1000 + 3 * 8"
  by (simp add: SliceArray_body_def adjust_index_def adjust_given_index_def
      set_default_index_def intp_sdiv_def intp_srem_def Let_def word_sless_alt word_sle_eq
        signed_divide_int_def signed_modulo_int_def)

section \<open>Properties of broadcasting\<close>

subsection \<open>The loop over the axes of one operand\<close>

lemma broadcast_loop_done:
  "\<not> i < n \<Longrightarrow> broadcast_loop d n i dst ss st = Some (1, dst, st)"
  by (simp add: broadcast_loop.simps)

lemma broadcast_loop_step:
  assumes "i < n" "length ss = n" "n + off \<le> length dst"
  shows "broadcast_loop (int off) n i dst ss st =
           (if ss ! i = 1 then
              (if length st \<le> i then None
               else broadcast_loop (int off) n (Suc i) dst ss (st[i := 0]))
            else if dst ! (i + off) = 1
              then broadcast_loop (int off) n (Suc i) (dst[i + off := ss ! i]) ss st
            else if ss ! i \<noteq> dst ! (i + off) then Some (0, dst, st)
            else broadcast_loop (int off) n (Suc i) dst ss st)"
proof -
  have a: "nat (int i + int off) = i + off" by simp
  have b: "\<not> (int i + int off < 0 \<or> int (length dst) \<le> int i + int off)"
    using assms by auto
  have c: "\<not> length ss \<le> i" using assms by simp
  show ?thesis
    by (subst broadcast_loop.simps) (simp only: assms(1) a b c if_True if_False Let_def)
qed

lemma all_from_split:
  "i < n \<Longrightarrow> (\<forall>k. i \<le> k \<and> k < n \<longrightarrow> P k) \<longleftrightarrow> P i \<and> (\<forall>k. Suc i \<le> k \<and> k < n \<longrightarrow> P k)"
proof -
  assume lt: "i < n"
  have "i \<le> k \<longleftrightarrow> k = i \<or> Suc i \<le> k" for k by auto
  then show ?thesis using lt by auto
qed

lemma axes_agree_split:
  "i < n \<Longrightarrow> axes_agree off n i d ss \<longleftrightarrow>
      (ss ! i = 1 \<or> d ! (i + off) = 1 \<or> ss ! i = d ! (i + off)) \<and> axes_agree off n (Suc i) d ss"
  unfolding axes_agree_def
  by (rule all_from_split [where P = "\<lambda>k. ss ! k = 1 \<or> d ! (k + off) = 1 \<or> ss ! k = d ! (k + off)"])

lemma axes_agree_update:
  "axes_agree off n (Suc i) (d[i + off := v]) ss \<longleftrightarrow> axes_agree off n (Suc i) d ss"
  unfolding axes_agree_def by (simp add: Suc_le_eq less_imp_neq [THEN not_sym] cong: conj_cong)


lemma loop_post_one:
  assumes "i < n" "length st = n" "ss ! i = 1"
    and "loop_post off n (Suc i) dst ss (st[i := 0]) r dst' st'"
  shows "loop_post off n i dst ss st r dst' st'"
proof -
  have a: "r = 1 \<longleftrightarrow> axes_agree off n i dst ss"
    using assms by (simp add: loop_post_def axes_agree_split [OF assms(1)])
  have b: "st' ! k = (if i \<le> k \<and> ss ! k = 1 then 0 else st ! k)" if "r = 1" "k < n" for k
  proof (cases "k = i")
    case True
    then show ?thesis using assms that by (simp add: loop_post_def)
  next
    case False
    then show ?thesis using assms that by (auto simp: loop_post_def Suc_le_eq)
  qed
  have c: "dst' ! j =
                (if i + off \<le> j \<and> j < n + off \<and> ss ! (j - off) \<noteq> 1 \<and> dst ! j = 1
                 then ss ! (j - off) else dst ! j)" if "r = 1" "j < length dst" for j
  proof (cases "j = i + off")
    case True
    then show ?thesis using assms that by (simp add: loop_post_def)
  next
    case False
    then have "Suc i + off \<le> j \<longleftrightarrow> i + off \<le> j" by auto
    then show ?thesis using assms(4) that by (simp add: loop_post_def)
  qed
  show ?thesis
    using assms(4) a b c unfolding loop_post_def by blast
qed


lemma loop_post_same:
  assumes "i < n" "ss ! i \<noteq> 1" "dst ! (i + off) \<noteq> 1" "ss ! i = dst ! (i + off)"
    and "loop_post off n (Suc i) dst ss st r dst' st'"
  shows "loop_post off n i dst ss st r dst' st'"
proof -
  have a: "r = 1 \<longleftrightarrow> axes_agree off n i dst ss"
    using assms by (simp add: loop_post_def axes_agree_split [OF assms(1)])
  have b: "st' ! k = (if i \<le> k \<and> ss ! k = 1 then 0 else st ! k)" if "r = 1" "k < n" for k
  proof (cases "k = i")
    case True
    then show ?thesis using assms that by (simp add: loop_post_def)
  next
    case False
    then show ?thesis using assms that by (auto simp: loop_post_def Suc_le_eq)
  qed
  have c: "dst' ! j =
                (if i + off \<le> j \<and> j < n + off \<and> ss ! (j - off) \<noteq> 1 \<and> dst ! j = 1
                 then ss ! (j - off) else dst ! j)" if "r = 1" "j < length dst" for j
  proof (cases "j = i + off")
    case True
    then show ?thesis using assms that by (simp add: loop_post_def)
  next
    case False
    then have "Suc i + off \<le> j \<longleftrightarrow> i + off \<le> j" by auto
    then show ?thesis using assms(5) that by (simp add: loop_post_def)
  qed
  show ?thesis
    using assms(5) a b c unfolding loop_post_def by blast
qed

lemma loop_post_adopt:
  assumes "i < n" "n + off \<le> length dst" "ss ! i \<noteq> 1" "dst ! (i + off) = 1"
    and "loop_post off n (Suc i) (dst[i + off := ss ! i]) ss st r dst' st'"
  shows "loop_post off n i dst ss st r dst' st'"
proof -
  have io: "i + off < length dst" using assms(1,2) by simp
  have a: "r = 1 \<longleftrightarrow> axes_agree off n i dst ss"
    using assms by (simp add: loop_post_def axes_agree_split [OF assms(1)] axes_agree_update)
  have b: "st' ! k = (if i \<le> k \<and> ss ! k = 1 then 0 else st ! k)" if "r = 1" "k < n" for k
  proof (cases "k = i")
    case True
    then show ?thesis using assms that by (simp add: loop_post_def)
  next
    case False
    then show ?thesis using assms that by (auto simp: loop_post_def Suc_le_eq)
  qed
  have c: "dst' ! j =
                (if i + off \<le> j \<and> j < n + off \<and> ss ! (j - off) \<noteq> 1 \<and> dst ! j = 1
                 then ss ! (j - off) else dst ! j)" if "r = 1" "j < length dst" for j
  proof (cases "j = i + off")
    case True
    then show ?thesis using assms that io by (simp add: loop_post_def)
  next
    case False
    then have "Suc i + off \<le> j \<longleftrightarrow> i + off \<le> j" by auto
    then show ?thesis using assms(5) that False by (simp add: loop_post_def)
  qed
  have d: "length dst' = length dst" using assms(5) by (simp add: loop_post_def)
  show ?thesis
    using assms(5) a b c d unfolding loop_post_def by blast
qed

lemma loop_post_clash:
  assumes "i < n" "length st = n" "ss ! i \<noteq> 1" "dst ! (i + off) \<noteq> 1" "ss ! i \<noteq> dst ! (i + off)"
  shows "loop_post off n i dst ss st 0 dst st"
  using assms by (simp add: loop_post_def axes_agree_split [OF assms(1)])

lemma broadcast_loop_char:
  assumes "length ss = n" "length st = n" "n + off \<le> length dst" "i \<le> n"
  shows "\<exists>r dst' st'. broadcast_loop (int off) n i dst ss st = Some (r, dst', st')
           \<and> loop_post off n i dst ss st r dst' st'"
  using assms
proof (induction "n - i" arbitrary: i dst st)
  case 0
  then have "\<not> i < n" by simp
  then have "broadcast_loop (int off) n i dst ss st = Some (1, dst, st)"
    by (rule broadcast_loop_done)
  moreover have "loop_post off n i dst ss st 1 dst st"
    using \<open>\<not> i < n\<close> "0.prems" by (auto simp: loop_post_def axes_agree_def)
  ultimately show ?case by blast
next
  case (Suc m)
  then have lt: "i < n" by simp
  have m: "m = n - Suc i" using Suc.hyps(2) by simp
  have si: "Suc i \<le> n" using lt by simp
  note step = broadcast_loop_step [OF lt Suc.prems(1) Suc.prems(3), of st]
  note ih = Suc.hyps(1) [OF m Suc.prems(1) _ _ si]
  consider (one) "ss ! i = 1"
    | (adopt) "ss ! i \<noteq> 1" "dst ! (i + off) = 1"
    | (clash) "ss ! i \<noteq> 1" "dst ! (i + off) \<noteq> 1" "ss ! i \<noteq> dst ! (i + off)"
    | (same) "ss ! i \<noteq> 1" "dst ! (i + off) \<noteq> 1" "ss ! i = dst ! (i + off)"
    by blast
  then show ?case
  proof cases
    case one
    have "length (st[i := 0]) = n" using Suc.prems(2) by simp
    from ih [OF this Suc.prems(3)]
    obtain r dst' st' where r: "broadcast_loop (int off) n (Suc i) dst ss (st[i := 0]) = Some (r, dst', st')"
      "loop_post off n (Suc i) dst ss (st[i := 0]) r dst' st'"
      by blast
    have "broadcast_loop (int off) n i dst ss st = Some (r, dst', st')"
      using step one r(1) lt Suc.prems(2) by simp
    moreover have "loop_post off n i dst ss st r dst' st'"
      using lt Suc.prems(2) one r(2) by (rule loop_post_one)
    ultimately show ?thesis by blast
  next
    case adopt
    have "n + off \<le> length (dst[i + off := ss ! i])" using Suc.prems(3) by simp
    from ih [OF Suc.prems(2) this]
    obtain r dst' st' where r:
      "broadcast_loop (int off) n (Suc i) (dst[i + off := ss ! i]) ss st = Some (r, dst', st')"
      "loop_post off n (Suc i) (dst[i + off := ss ! i]) ss st r dst' st'"
      by blast
    have "broadcast_loop (int off) n i dst ss st = Some (r, dst', st')"
      using step adopt r(1) by simp
    moreover have "loop_post off n i dst ss st r dst' st'"
      using lt Suc.prems(3) adopt r(2) by (rule loop_post_adopt)
    ultimately show ?thesis by blast
  next
    case clash
    have "broadcast_loop (int off) n i dst ss st = Some (0, dst, st)"
      using step clash by simp
    moreover have "loop_post off n i dst ss st 0 dst st"
      using lt Suc.prems(2) clash by (rule loop_post_clash)
    ultimately show ?thesis by blast
  next
    case same
    from ih [OF Suc.prems(2) Suc.prems(3)]
    obtain r dst' st' where r:
      "broadcast_loop (int off) n (Suc i) dst ss st = Some (r, dst', st')"
      "loop_post off n (Suc i) dst ss st r dst' st'"
      by blast
    have "broadcast_loop (int off) n i dst ss st = Some (r, dst', st')"
      using step same r(1) by simp
    moreover have "loop_post off n i dst ss st r dst' st'"
      using lt same r(2) by (rule loop_post_same)
    ultimately show ?thesis by blast
  qed
qed

subsection \<open>A failing loop is a successful loop over the axes before the mismatch\<close>

lemma broadcast_loop_unfold:
  "i < n \<Longrightarrow> broadcast_loop d n i dst ss st =
     axis_step d i dst ss st (\<lambda>dst2 st2. broadcast_loop d n (Suc i) dst2 ss st2)"
  by (subst broadcast_loop.simps) (simp add: axis_step_def Let_def)

lemma axis_step_cases:
  assumes "axis_step d i dst ss st cont = Some r"
  shows "(\<exists>dst2 st2. cont dst2 st2 = Some r
            \<and> (\<forall>c. axis_step d i dst ss st c = c dst2 st2))
       \<or> (r = (0, dst, st) \<and> i < length ss \<and> 0 \<le> int i + d \<and> nat (int i + d) < length dst
            \<and> ss ! i \<noteq> 1 \<and> dst ! nat (int i + d) \<noteq> 1 \<and> ss ! i \<noteq> dst ! nat (int i + d))"
proof -
  have r0: "\<not> length ss \<le> i"
    using assms by (auto simp: axis_step_def split: if_splits)
  show ?thesis
  proof (cases "ss ! i = 1")
    case True
    have l: "\<not> length st \<le> i"
      using assms r0 True by (auto simp: axis_step_def split: if_splits)
    have "cont dst (st[i := 0]) = Some r"
      using assms r0 True l by (simp add: axis_step_def)
    moreover have "\<forall>c. axis_step d i dst ss st c = c dst (st[i := 0])"
      using r0 True l by (simp add: axis_step_def)
    ultimately show ?thesis by blast
  next
    case False
    have rng: "\<not> (int i + d < 0 \<or> int (length dst) \<le> int i + d)"
      using assms r0 False by (auto simp: axis_step_def split: if_splits)
    show ?thesis
    proof (cases "dst ! nat (int i + d) = 1")
      case True
      have "cont (dst[nat (int i + d) := ss ! i]) st = Some r"
        using assms r0 False rng True by (simp add: axis_step_def)
      moreover have "\<forall>c. axis_step d i dst ss st c = c (dst[nat (int i + d) := ss ! i]) st"
        using r0 False rng True by (simp add: axis_step_def)
      ultimately show ?thesis by blast
    next
      case nd: False
      show ?thesis
      proof (cases "ss ! i = dst ! nat (int i + d)")
        case True
        have "cont dst st = Some r"
          using assms r0 False rng nd True by (simp add: axis_step_def)
        moreover have "\<forall>c. axis_step d i dst ss st c = c dst st"
          using r0 False rng nd True by (simp add: axis_step_def)
        ultimately show ?thesis by blast
      next
        case ne: False
        have "r = (0, dst, st)"
          using assms r0 False rng nd ne by (simp add: axis_step_def)
        then show ?thesis using r0 False rng nd ne by auto
      qed
    qed
  qed
qed

lemma broadcast_loop_failure_prefix:
  assumes "broadcast_loop d n i dst ss st = Some (0, dst', st')"
  shows "\<exists>k. i \<le> k \<and> k < n \<and> broadcast_loop d k i dst ss st = Some (1, dst', st')
           \<and> k < length ss \<and> 0 \<le> int k + d \<and> nat (int k + d) < length dst'
           \<and> ss ! k \<noteq> 1 \<and> dst' ! nat (int k + d) \<noteq> 1 \<and> ss ! k \<noteq> dst' ! nat (int k + d)"
  using assms
proof (induction "n - i" arbitrary: i dst st)
  case 0
  then have "\<not> i < n" by simp
  then have "broadcast_loop d n i dst ss st = Some (1, dst, st)"
    by (rule broadcast_loop_done)
  with "0.prems" show ?case by simp
next
  case (Suc m)
  then have lt: "i < n" by simp
  have m: "m = n - Suc i" using Suc.hyps(2) by simp
  have "axis_step d i dst ss st (\<lambda>dst2 st2. broadcast_loop d n (Suc i) dst2 ss st2)
          = Some (0, dst', st')"
    using Suc.prems broadcast_loop_unfold [OF lt] by simp
  from axis_step_cases [OF this]
  show ?case
  proof (elim disjE exE conjE)
    fix dst2 st2
    assume c: "broadcast_loop d n (Suc i) dst2 ss st2 = Some (0, dst', st')"
      and u: "\<forall>c. axis_step d i dst ss st c = c dst2 st2"
    from Suc.hyps(1) [OF m c]
    obtain k where k: "Suc i \<le> k" "k < n"
      "broadcast_loop d k (Suc i) dst2 ss st2 = Some (1, dst', st')"
      "k < length ss" "0 \<le> int k + d" "nat (int k + d) < length dst'"
      "ss ! k \<noteq> 1" "dst' ! nat (int k + d) \<noteq> 1" "ss ! k \<noteq> dst' ! nat (int k + d)"
      by blast
    have "i < k" using k(1) by simp
    then have "broadcast_loop d k i dst ss st = Some (1, dst', st')"
      using broadcast_loop_unfold [of i k d dst ss st] u k(3) by simp
    moreover have "i \<le> k" using k(1) by simp
    ultimately show ?thesis using k by blast
  next
    assume r: "(0, dst', st') = (0 :: int, dst, st)"
      and c: "i < length ss" "0 \<le> int i + d" "nat (int i + d) < length dst"
        "ss ! i \<noteq> 1" "dst ! nat (int i + d) \<noteq> 1" "ss ! i \<noteq> dst ! nat (int i + d)"
    have "broadcast_loop d i i dst ss st = Some (1, dst', st')"
      using r by (simp add: broadcast_loop_done)
    then show ?thesis using lt r c by auto
  qed
qed

subsection \<open>One operand, in terms of its extents at the destination axes\<close>

lemma extent_at_array:
  assumes "op_is_array op" "op_ndim op \<le> max_ndim"
  shows "extent_at max_ndim op j =
           (if max_ndim - op_ndim op \<le> j \<and> j < max_ndim
            then Some (op_shape op ! (j - (max_ndim - op_ndim op))) else None)"
  using assms by (simp add: extent_at_def)

lemma axes_agree_extent_at:
  assumes "op_is_array op" "op_ndim op \<le> max_ndim"
  shows "axes_agree (max_ndim - op_ndim op) (op_ndim op) 0 dst (op_shape op) \<longleftrightarrow>
         (\<forall>j<max_ndim. \<forall>a. extent_at max_ndim op j = Some a \<longrightarrow> a = 1 \<or> dst ! j = 1 \<or> a = dst ! j)"
proof
  assume L: "axes_agree (max_ndim - op_ndim op) (op_ndim op) 0 dst (op_shape op)"
  show "\<forall>j<max_ndim. \<forall>a. extent_at max_ndim op j = Some a \<longrightarrow> a = 1 \<or> dst ! j = 1 \<or> a = dst ! j"
  proof (intro allI impI)
    fix j a assume j: "j < max_ndim" and e: "extent_at max_ndim op j = Some a"
    define k where "k = j - (max_ndim - op_ndim op)"
    have ge: "max_ndim - op_ndim op \<le> j" and a: "a = op_shape op ! k"
      using e assms by (auto simp: extent_at_array k_def split: if_splits)
    have "k < op_ndim op" "k + (max_ndim - op_ndim op) = j"
      using ge j assms(2) by (auto simp: k_def)
    then show "a = 1 \<or> dst ! j = 1 \<or> a = dst ! j"
      using L a unfolding axes_agree_def by (metis le0)
  qed
next
  assume R: "\<forall>j<max_ndim. \<forall>a. extent_at max_ndim op j = Some a \<longrightarrow> a = 1 \<or> dst ! j = 1 \<or> a = dst ! j"
  show "axes_agree (max_ndim - op_ndim op) (op_ndim op) 0 dst (op_shape op)"
    unfolding axes_agree_def
  proof (intro allI impI)
    fix k assume "0 \<le> k \<and> k < op_ndim op"
    then have k: "k < op_ndim op" by simp
    define j where "j = k + (max_ndim - op_ndim op)"
    have j: "j < max_ndim" "max_ndim - op_ndim op \<le> j" "j - (max_ndim - op_ndim op) = k"
      using k assms(2) by (auto simp: j_def)
    then have "extent_at max_ndim op j = Some (op_shape op ! k)"
      using assms by (simp add: extent_at_array)
    with R j(1) have "op_shape op ! k = 1 \<or> dst ! j = 1 \<or> op_shape op ! k = dst ! j" by blast
    then show "op_shape op ! k = 1 \<or> dst ! (k + (max_ndim - op_ndim op)) = 1 \<or>
               op_shape op ! k = dst ! (k + (max_ndim - op_ndim op))"
      by (simp add: j_def)
  qed
qed


lemma Broadcast_body_operand:
  assumes arr: "op_is_array op" and wf: "wf_operand max_ndim op"
    and len: "length dst = max_ndim"
  shows "\<exists>r dst' st'.
           Broadcast_body dst (op_shape op) (op_strides op) max_ndim (op_ndim op) = Some (r, dst', st')
         \<and> length dst' = max_ndim \<and> length st' = op_ndim op \<and> (r = 0 \<or> r = 1)
         \<and> (r = 1 \<longleftrightarrow> (\<forall>j<max_ndim. \<forall>a. extent_at max_ndim op j = Some a \<longrightarrow>
                              a = 1 \<or> dst ! j = 1 \<or> a = dst ! j))
         \<and> (r = 1 \<longrightarrow> (\<forall>j<max_ndim. dst' ! j = adopted max_ndim op dst j)
                    \<and> (\<forall>k<op_ndim op. st' ! k =
                          (if op_shape op ! k = 1 then 0 else op_strides op ! k)))"
proof -
  define n where "n = op_ndim op"
  define off where "off = max_ndim - n"
  have w: "length (op_shape op) = n" "length (op_strides op) = n" "n \<le> max_ndim"
    using arr wf by (simp_all add: wf_operand_def n_def)
  have o: "int max_ndim - int n = int off" "n + off \<le> length dst" "n + off = max_ndim"
    using w(3) len by (simp_all add: off_def)
  from broadcast_loop_char [OF w(1) w(2) o(2), of 0]
  obtain r dst' st' where r:
    "broadcast_loop (int off) n 0 dst (op_shape op) (op_strides op) = Some (r, dst', st')"
    "loop_post off n 0 dst (op_shape op) (op_strides op) r dst' st'"
    by auto
  have b: "Broadcast_body dst (op_shape op) (op_strides op) max_ndim (op_ndim op) = Some (r, dst', st')"
    using r(1) o(1) by (simp add: Broadcast_body_def n_def)
  have p1: "length dst' = max_ndim" "length st' = op_ndim op" "r = 0 \<or> r = 1"
    using r(2) len unfolding loop_post_def n_def by blast+
  have ag: "r = 1 \<longleftrightarrow> axes_agree off n 0 dst (op_shape op)"
    using r(2) unfolding loop_post_def by blast
  have p2: "r = 1 \<longleftrightarrow> (\<forall>j<max_ndim. \<forall>a. extent_at max_ndim op j = Some a \<longrightarrow>
                              a = 1 \<or> dst ! j = 1 \<or> a = dst ! j)"
    using ag axes_agree_extent_at [OF arr, of max_ndim dst] w(3)
    by (simp add: n_def off_def)
  have p3: "dst' ! j = adopted max_ndim op dst j" if "r = 1" "j < max_ndim" for j
  proof -
    have "dst' ! j =
            (if 0 + off \<le> j \<and> j < n + off \<and> op_shape op ! (j - off) \<noteq> 1 \<and> dst ! j = 1
             then op_shape op ! (j - off) else dst ! j)"
      using r(2) that len unfolding loop_post_def by blast
    then show ?thesis
      using that(2) arr w(3) o(3)
      by (auto simp: adopted_def extent_at_array n_def off_def)
  qed
  have p4: "st' ! k = (if op_shape op ! k = 1 then 0 else op_strides op ! k)"
    if "r = 1" "k < op_ndim op" for k
  proof -
    have "st' ! k = (if 0 \<le> k \<and> op_shape op ! k = 1 then 0 else op_strides op ! k)"
      using r(2) that unfolding loop_post_def n_def by blast
    then show ?thesis by simp
  qed
  show ?thesis using b p1 p2 p3 p4 by blast
qed


lemma case_pair_option_iff:
  "(case (x, y) of (Some a, Some b) \<Rightarrow> Q a b | _ \<Rightarrow> True) \<longleftrightarrow>
   (\<forall>a b. x = Some a \<and> y = Some b \<longrightarrow> Q a b)"
  by (cases x; cases y; simp)

lemma broadcastable_compatible: "broadcastable max_ndim ops \<longleftrightarrow> compatible max_ndim (set ops)"
  unfolding broadcastable_def compatible_def case_pair_option_iff
  by (simp add: Ball_def)

lemma shape_inv_compatible:
  assumes "shape_inv max_ndim P dst"
  shows "compatible max_ndim P"
  unfolding compatible_def
proof (intro allI impI ballI)
  fix j p q a b
  assume j: "j < max_ndim" and p: "p \<in> P" and q: "q \<in> P"
    and e: "extent_at max_ndim p j = Some a \<and> extent_at max_ndim q j = Some b"
  have "a = 1 \<or> a = dst ! j" using assms j p e unfolding shape_inv_def by blast
  moreover have "b = 1 \<or> b = dst ! j" using assms j q e unfolding shape_inv_def by blast
  ultimately show "a = 1 \<or> b = 1 \<or> a = b" by auto
qed

lemma shape_inv_init: "shape_inv max_ndim {} (replicate max_ndim 1)"
  by (simp add: shape_inv_def)

lemma shape_inv_step:
  assumes inv: "shape_inv max_ndim P dst" and ag: "agrees max_ndim op dst"
    and len: "length dst' = max_ndim"
    and upd: "\<forall>j<max_ndim. dst' ! j = adopted max_ndim op dst j"
  shows "shape_inv max_ndim (insert op P) dst'"
  unfolding shape_inv_def
proof (intro conjI allI impI ballI)
  show "length dst' = max_ndim" by fact
next
  fix j p a
  assume j: "j < max_ndim" and p: "p \<in> insert op P" and e: "extent_at max_ndim p j = Some a"
  have d: "dst' ! j = adopted max_ndim op dst j" using upd j by simp
  show "a = 1 \<or> a = dst' ! j"
  proof (cases "p = op")
    case True
    then show ?thesis using e d ag j by (auto simp: adopted_def agrees_def)
  next
    case False
    then have "p \<in> P" using p by simp
    then have pa: "a = 1 \<or> a = dst ! j" using inv j e unfolding shape_inv_def by blast
    show ?thesis
    proof (cases "dst ! j = 1")
      case True
      then show ?thesis using pa by simp
    next
      case False
      then have "dst' ! j = dst ! j" using d by (simp add: adopted_def split: option.splits)
      then show ?thesis using pa by simp
    qed
  qed
next
  fix j
  assume j: "j < max_ndim" and n1: "dst' ! j \<noteq> 1"
  have d: "dst' ! j = adopted max_ndim op dst j" using upd j by simp
  show "\<exists>p\<in>insert op P. extent_at max_ndim p j = Some (dst' ! j)"
  proof (cases "dst ! j = 1")
    case True
    then have "extent_at max_ndim op j = Some (dst' ! j)"
      using d n1 by (auto simp: adopted_def split: option.splits if_splits)
    then show ?thesis by blast
  next
    case False
    then have "dst' ! j = dst ! j" using d by (simp add: adopted_def split: option.splits)
    moreover have "\<exists>p\<in>P. extent_at max_ndim p j = Some (dst ! j)"
      using inv j False unfolding shape_inv_def by blast
    ultimately show ?thesis by auto
  qed
qed

lemma compatible_agrees:
  assumes inv: "shape_inv max_ndim P dst" and c: "compatible max_ndim (insert op P \<union> S)"
  shows "agrees max_ndim op dst"
  unfolding agrees_def
proof (intro allI impI)
  fix j a assume j: "j < max_ndim" and e: "extent_at max_ndim op j = Some a"
  show "a = 1 \<or> dst ! j = 1 \<or> a = dst ! j"
  proof (cases "dst ! j = 1")
    case True then show ?thesis by simp
  next
    case False
    then obtain p where p: "p \<in> P" "extent_at max_ndim p j = Some (dst ! j)"
      using inv j unfolding shape_inv_def by blast
    have "op \<in> insert op P \<union> S" "p \<in> insert op P \<union> S" using p(1) by auto
    then have "a = 1 \<or> dst ! j = 1 \<or> a = dst ! j"
      using c j e p(2) unfolding compatible_def by blast
    then show ?thesis .
  qed
qed

lemma extent_at_not_array: "\<not> op_is_array op \<Longrightarrow> extent_at max_ndim op j = None"
  by (simp add: extent_at_def)

lemma shape_inv_not_array:
  "\<not> op_is_array op \<Longrightarrow> shape_inv max_ndim (insert op P) dst \<longleftrightarrow> shape_inv max_ndim P dst"
  unfolding shape_inv_def by (auto simp: extent_at_not_array)

lemma compatible_not_array:
  "\<not> op_is_array op \<Longrightarrow> compatible max_ndim (insert op S) \<longleftrightarrow> compatible max_ndim S"
  unfolding compatible_def by (auto simp: extent_at_not_array)

subsection \<open>The loop over the operands\<close>

lemma broadcast_operands_defined:
  assumes "length dst = max_ndim" "\<forall>op\<in>set ops. wf_operand max_ndim op"
  shows "\<exists>sh ops' rets. broadcast_operands max_ndim dst ops = Some (sh, ops', rets)
           \<and> length sh = max_ndim"
  using assms
proof (induction ops arbitrary: dst)
  case Nil
  then show ?case by simp
next
  case (Cons op ops)
  have wfs: "\<forall>op\<in>set ops. wf_operand max_ndim op" and wf: "wf_operand max_ndim op"
    using Cons.prems(2) by simp_all
  show ?case
  proof (cases "op_is_array op")
    case False
    from Cons.IH [OF Cons.prems(1) wfs]
    obtain sh ops' rets where "broadcast_operands max_ndim dst ops = Some (sh, ops', rets)"
      "length sh = max_ndim" by blast
    then show ?thesis using False by simp
  next
    case True
    from Broadcast_body_operand [OF True wf Cons.prems(1)]
    obtain r dst' st' where b:
      "Broadcast_body dst (op_shape op) (op_strides op) max_ndim (op_ndim op) = Some (r, dst', st')"
      "length dst' = max_ndim" by blast
    from Cons.IH [OF b(2) wfs]
    obtain sh ops' rets where "broadcast_operands max_ndim dst' ops = Some (sh, ops', rets)"
      "length sh = max_ndim" by blast
    then show ?thesis using True b(1) by simp
  qed
qed

lemma zero_unit_strides_eq:
  assumes "op_is_array op" "length (op_shape op) = op_ndim op" "length (op_strides op) = op_ndim op"
    and "length st' = op_ndim op"
    and "\<forall>k<op_ndim op. st' ! k = (if op_shape op ! k = 1 then 0 else op_strides op ! k)"
  shows "op\<lparr>op_strides := st'\<rparr> = zero_unit_strides op"
proof -
  have "st' = map2 (\<lambda>e s. if e = 1 then 0 else s) (op_shape op) (op_strides op)"
    using assms by (intro nth_equalityI) simp_all
  then show ?thesis using assms(1) by (simp add: zero_unit_strides_def)
qed


lemma broadcast_operands_char:
  assumes "shape_inv max_ndim P dst" "\<forall>op\<in>set ops. wf_operand max_ndim op"
  shows "\<exists>sh ops' rets. broadcast_operands max_ndim dst ops = Some (sh, ops', rets)
           \<and> (if compatible max_ndim (P \<union> set ops)
               then (\<forall>r\<in>set rets. r = 1) \<and> shape_inv max_ndim (P \<union> set ops) sh
                    \<and> ops' = map zero_unit_strides ops
               else 0 \<in> set rets)"
  using assms
proof (induction ops arbitrary: dst P)
  case Nil
  then show ?case using shape_inv_compatible [of max_ndim P dst] by simp
next
  case (Cons op ops)
  have wfs: "\<forall>op\<in>set ops. wf_operand max_ndim op" and wf: "wf_operand max_ndim op"
    using Cons.prems(2) by simp_all
  have len: "length dst = max_ndim" using Cons.prems(1) by (simp add: shape_inv_def)
  have un: "P \<union> set (op # ops) = insert op P \<union> set ops" by simp
  show ?case
  proof (cases "op_is_array op")
    case False
    have inv: "shape_inv max_ndim (insert op P) dst"
      using Cons.prems(1) False by (simp add: shape_inv_not_array)
    from Cons.IH [OF inv wfs]
    obtain sh ops' rets where r: "broadcast_operands max_ndim dst ops = Some (sh, ops', rets)"
      "if compatible max_ndim (insert op P \<union> set ops)
       then (\<forall>r\<in>set rets. r = 1) \<and> shape_inv max_ndim (insert op P \<union> set ops) sh
            \<and> ops' = map zero_unit_strides ops
       else 0 \<in> set rets"
      by blast
    have "broadcast_operands max_ndim dst (op # ops) = Some (sh, op # ops', rets)"
      using False r(1) by simp
    moreover have "zero_unit_strides op = op" using False by (simp add: zero_unit_strides_def)
    ultimately show ?thesis using r(2) unfolding un by (auto split: if_splits)
  next
    case True
    from Broadcast_body_operand [OF True wf len]
    obtain r dst' st' where b:
      "Broadcast_body dst (op_shape op) (op_strides op) max_ndim (op_ndim op) = Some (r, dst', st')"
      "length dst' = max_ndim" "length st' = op_ndim op" "r = 0 \<or> r = 1"
      "r = 1 \<longleftrightarrow> agrees max_ndim op dst"
      "r = 1 \<longrightarrow> (\<forall>j<max_ndim. dst' ! j = adopted max_ndim op dst j)
                    \<and> (\<forall>k<op_ndim op. st' ! k =
                          (if op_shape op ! k = 1 then 0 else op_strides op ! k))"
      unfolding agrees_def by blast
    show ?thesis
    proof (cases "r = 1")
      case r1: True
      have inv: "shape_inv max_ndim (insert op P) dst'"
        using Cons.prems(1) b(5) r1 b(2) b(6) by (intro shape_inv_step) auto
      from Cons.IH [OF inv wfs]
      obtain sh ops' rets where q: "broadcast_operands max_ndim dst' ops = Some (sh, ops', rets)"
        "if compatible max_ndim (insert op P \<union> set ops)
         then (\<forall>r\<in>set rets. r = 1) \<and> shape_inv max_ndim (insert op P \<union> set ops) sh
              \<and> ops' = map zero_unit_strides ops
         else 0 \<in> set rets"
        by blast
      have run: "broadcast_operands max_ndim dst (op # ops) =
                   Some (sh, op\<lparr>op_strides := st'\<rparr> # ops', r # rets)"
        using True b(1) q(1) by simp
      have z: "op\<lparr>op_strides := st'\<rparr> = zero_unit_strides op"
        using True wf b(3) b(6) r1 by (intro zero_unit_strides_eq) (auto simp: wf_operand_def)
      show ?thesis using run z q(2) r1 unfolding un by (auto split: if_splits)
    next
      case r0: False
      then have "\<not> agrees max_ndim op dst" using b(5) by simp
      then have nc: "\<not> compatible max_ndim (insert op P \<union> set ops)"
        using compatible_agrees [OF Cons.prems(1)] by blast
      from broadcast_operands_defined [OF b(2) wfs]
      obtain sh ops' rets where q: "broadcast_operands max_ndim dst' ops = Some (sh, ops', rets)"
        by blast
      have run: "broadcast_operands max_ndim dst (op # ops) =
                   Some (sh, op\<lparr>op_strides := st'\<rparr> # ops', r # rets)"
        using True b(1) q(1) by simp
      have "r = 0" using r0 b(4) by simp
      then show ?thesis using run nc unfolding un by simp
    qed
  qed
qed

subsection \<open>The whole broadcast\<close>

lemma check_errors_ok: "\<forall>r\<in>set rets. r = 1 \<Longrightarrow> check_errors rets = Inr ()"
  by (induction rets) simp_all

lemma check_errors_fail:
  "0 \<in> set rets \<Longrightarrow> check_errors rets = Inl (ValueError ''Shape mismatch while broadcasting'')"
  by (induction rets) auto

lemma check_errors_Inl:
  "check_errors rets = Inl e \<Longrightarrow> e = ValueError ''Shape mismatch while broadcasting''"
  by (induction rets) (auto split: if_splits)

lemma visit_BroadcastNode_Inl:
  "visit_BroadcastNode max_ndim ops = Some (Inl e) \<Longrightarrow>
   e = ValueError ''Shape mismatch while broadcasting''"
  unfolding visit_BroadcastNode_def
  by (auto split: option.splits sum.splits dest: check_errors_Inl)

lemma visit_BroadcastNode_char:
  assumes "\<forall>op\<in>set ops. wf_operand max_ndim op"
  shows "\<exists>sh ops' rets.
           broadcast_operands max_ndim (replicate max_ndim 1) ops = Some (sh, ops', rets)
         \<and> (if broadcastable max_ndim ops
            then (\<forall>r\<in>set rets. r = 1) \<and> shape_inv max_ndim (set ops) sh
                 \<and> visit_BroadcastNode max_ndim ops = Some (Inr (sh, map zero_unit_strides ops))
            else 0 \<in> set rets
                 \<and> visit_BroadcastNode max_ndim ops =
                     Some (Inl (ValueError ''Shape mismatch while broadcasting'')))"
proof -
  from broadcast_operands_char [OF shape_inv_init assms]
  obtain sh ops' rets where r:
    "broadcast_operands max_ndim (replicate max_ndim 1) ops = Some (sh, ops', rets)"
    "if compatible max_ndim ({} \<union> set ops)
     then (\<forall>r\<in>set rets. r = 1) \<and> shape_inv max_ndim ({} \<union> set ops) sh
          \<and> ops' = map zero_unit_strides ops
     else 0 \<in> set rets"
    by blast
  show ?thesis
  proof (cases "broadcastable max_ndim ops")
    case True
    then have c: "compatible max_ndim ({} \<union> set ops)" by (simp add: broadcastable_compatible)
    have a: "\<forall>r\<in>set rets. r = 1" "shape_inv max_ndim (set ops) sh"
      "ops' = map zero_unit_strides ops"
      using r(2) c by simp_all
    have "visit_BroadcastNode max_ndim ops = Some (Inr (sh, map zero_unit_strides ops))"
      using r(1) a(3) check_errors_ok [OF a(1)] by (simp add: visit_BroadcastNode_def)
    then show ?thesis using True r(1) a by simp
  next
    case False
    then have c: "\<not> compatible max_ndim ({} \<union> set ops)" by (simp add: broadcastable_compatible)
    have z: "0 \<in> set rets" using r(2) c by simp
    have "visit_BroadcastNode max_ndim ops =
            Some (Inl (ValueError ''Shape mismatch while broadcasting''))"
      using r(1) check_errors_fail [OF z] by (simp add: visit_BroadcastNode_def)
    then show ?thesis using False r(1) z by simp
  qed
qed

subsection \<open>Evaluation of the examples\<close>

lemma lessThan_two: "{..<2::nat} = {0, 1}"
  by auto

lemma replicate_2: "replicate 2 x = [x, x]"
  by (simp add: numeral_2_eq_2)

lemmas broadcast_eval = replicate_2
  visit_BroadcastNode_def Broadcast_body_def broadcast_loop.simps Let_def
  zero_unit_strides_def

subsection \<open>The broadcasting rules and when a broadcast succeeds\<close>

text \<open>
  Claim C4. Over a destination shape of the right length, one call of \<^verbatim>\<open>Broadcast.body\<close>
  for an array operand, whose axes are the last \<open>ndim\<close> axes of the destination, returns 1
  exactly when none of its extents clashes with the destination (each is 1, meets a
  destination extent of 1, or equals the destination extent), and then the operand's
  strides are zeroed at its axes of extent 1 and the destination has adopted the
  operand's extent wherever it was 1. Starting from a shape of all ones,
  \<^verbatim>\<open>visit_BroadcastNode\<close> succeeds exactly when no axis sees two differing extents other
  than 1; it then returns every array operand with the strides of its axes of extent 1
  zeroed and a shape whose extents are those of the operands. Operands of shapes (1,3)
  and (4,1) give the shape (4,3), with the strides of the axes of extent 1 zeroed.
\<close>

theorem broadcast_rules_and_success:
  "(op_is_array op \<and> wf_operand max_ndim op \<and> length dst = max_ndim \<longrightarrow>
      (\<exists>r dst' st'.
          Broadcast_body dst (op_shape op) (op_strides op) max_ndim (op_ndim op)
            = Some (r, dst', st')
        \<and> (r = 0 \<or> r = 1)
        \<and> (r = 1 \<longleftrightarrow> agrees max_ndim op dst)
        \<and> (r = 1 \<longrightarrow> (\<forall>j<max_ndim. dst' ! j = adopted max_ndim op dst j)
                     \<and> op\<lparr>op_strides := st'\<rparr> = zero_unit_strides op)))
   \<and> ((\<forall>op\<in>set ops. wf_operand max_ndim op) \<longrightarrow>
        (if broadcastable max_ndim ops
         then \<exists>sh. visit_BroadcastNode max_ndim ops = Some (Inr (sh, map zero_unit_strides ops))
                  \<and> shape_inv max_ndim (set ops) sh
         else \<exists>e. visit_BroadcastNode max_ndim ops = Some (Inl e)))
   \<and> visit_BroadcastNode 2
        [\<lparr>op_is_array = True, op_ndim = 2, op_shape = [1, 3], op_strides = [s0, s1]\<rparr>,
         \<lparr>op_is_array = True, op_ndim = 2, op_shape = [4, 1], op_strides = [t0, t1]\<rparr>]
      = Some (Inr ([4, 3],
        [\<lparr>op_is_array = True, op_ndim = 2, op_shape = [1, 3], op_strides = [0, s1]\<rparr>,
         \<lparr>op_is_array = True, op_ndim = 2, op_shape = [4, 1], op_strides = [t0, 0]\<rparr>]))"
proof (intro conjI impI)
  assume a: "op_is_array op \<and> wf_operand max_ndim op \<and> length dst = max_ndim"
  then have arr: "op_is_array op" and wf: "wf_operand max_ndim op"
    and len: "length dst = max_ndim" by simp_all
  from Broadcast_body_operand [OF arr wf len]
  obtain r dst' st' where b:
    "Broadcast_body dst (op_shape op) (op_strides op) max_ndim (op_ndim op) = Some (r, dst', st')"
    "length st' = op_ndim op" "r = 0 \<or> r = 1"
    "r = 1 \<longleftrightarrow> agrees max_ndim op dst"
    "r = 1 \<longrightarrow> (\<forall>j<max_ndim. dst' ! j = adopted max_ndim op dst j)
                  \<and> (\<forall>k<op_ndim op. st' ! k =
                        (if op_shape op ! k = 1 then 0 else op_strides op ! k))"
    unfolding agrees_def by blast
  have "op\<lparr>op_strides := st'\<rparr> = zero_unit_strides op" if "r = 1"
    using arr wf b(2) b(5) that by (intro zero_unit_strides_eq) (auto simp: wf_operand_def)
  then show "\<exists>r dst' st'.
          Broadcast_body dst (op_shape op) (op_strides op) max_ndim (op_ndim op)
            = Some (r, dst', st')
        \<and> (r = 0 \<or> r = 1)
        \<and> (r = 1 \<longleftrightarrow> agrees max_ndim op dst)
        \<and> (r = 1 \<longrightarrow> (\<forall>j<max_ndim. dst' ! j = adopted max_ndim op dst j)
                     \<and> op\<lparr>op_strides := st'\<rparr> = zero_unit_strides op)"
    using b by blast
next
  assume "\<forall>op\<in>set ops. wf_operand max_ndim op"
  from visit_BroadcastNode_char [OF this]
  show "if broadcastable max_ndim ops
         then \<exists>sh. visit_BroadcastNode max_ndim ops = Some (Inr (sh, map zero_unit_strides ops))
                  \<and> shape_inv max_ndim (set ops) sh
         else \<exists>e. visit_BroadcastNode max_ndim ops = Some (Inl e)"
    by (auto split: if_splits)
next
  show "visit_BroadcastNode 2
        [\<lparr>op_is_array = True, op_ndim = 2, op_shape = [1, 3], op_strides = [s0, s1]\<rparr>,
         \<lparr>op_is_array = True, op_ndim = 2, op_shape = [4, 1], op_strides = [t0, t1]\<rparr>]
      = Some (Inr ([4, 3],
        [\<lparr>op_is_array = True, op_ndim = 2, op_shape = [1, 3], op_strides = [0, s1]\<rparr>,
         \<lparr>op_is_array = True, op_ndim = 2, op_shape = [4, 1], op_strides = [t0, 0]\<rparr>]))"
    by (simp add: broadcast_eval)
qed


theorem broadcast_rules_and_success_witness:
  "\<exists>sh. visit_BroadcastNode 2
        [\<lparr>op_is_array = True, op_ndim = 1, op_shape = [3], op_strides = [8]\<rparr>,
         \<lparr>op_is_array = True, op_ndim = 2, op_shape = [4, 1], op_strides = [8, 8]\<rparr>]
      = Some (Inr (sh, map zero_unit_strides
        [\<lparr>op_is_array = True, op_ndim = 1, op_shape = [3], op_strides = [8]\<rparr>,
         \<lparr>op_is_array = True, op_ndim = 2, op_shape = [4, 1], op_strides = [8, 8]\<rparr>]))
     \<and> shape_inv 2 (set
        [\<lparr>op_is_array = True, op_ndim = 1, op_shape = [3], op_strides = [8]\<rparr>,
         \<lparr>op_is_array = True, op_ndim = 2, op_shape = [4, 1], op_strides = [8, 8]\<rparr>]) sh"
proof -
  let ?ops = "[\<lparr>op_is_array = True, op_ndim = 1, op_shape = [3], op_strides = [8]\<rparr>,
         \<lparr>op_is_array = True, op_ndim = 2, op_shape = [4, 1], op_strides = [8, 8]\<rparr>]"
  have wf: "\<forall>op\<in>set ?ops. wf_operand 2 op" by (simp add: wf_operand_def)
  have bc: "broadcastable 2 ?ops"
    by (simp add: broadcastable_def extent_at_def lessThan_two)
  from broadcast_rules_and_success [where ops = ?ops and max_ndim = 2,
      THEN conjunct2, THEN conjunct1, THEN mp, OF wf] bc
  show ?thesis by simp
qed

subsection \<open>A failed call keeps the updates it made\<close>

text \<open>
  Claim C9. When \<^verbatim>\<open>Broadcast.body\<close> returns 0, there is a mismatched axis \<open>i\<close> at which it
  returned, and the destination shape and the strides it leaves behind are exactly those
  the loop produces on the axes before \<open>i\<close>: the updates made there are kept, nothing is
  rolled back. For a destination (1,1,5) and an operand of shape (1,3,4) the call fails
  at axis 2 and leaves the stride of axis 0 zeroed and the extent 3 adopted at axis 1.
\<close>

theorem broadcast_failure_keeps_updates:
  "(Broadcast_body dst_shape src_shape src_strides max_ndim ndim = Some (0, dst', st') \<longrightarrow>
      (\<exists>i<ndim.
          broadcast_loop (int max_ndim - int ndim) i 0 dst_shape src_shape src_strides
            = Some (1, dst', st')
        \<and> src_shape ! i \<noteq> 1
        \<and> dst' ! nat (int i + (int max_ndim - int ndim)) \<noteq> 1
        \<and> src_shape ! i \<noteq> dst' ! nat (int i + (int max_ndim - int ndim))))
   \<and> Broadcast_body [1, 1, 5] [1, 3, 4] [s0, s1, s2] 3 3 = Some (0, [1, 3, 5], [0, s1, s2])"
proof (intro conjI impI)
  assume "Broadcast_body dst_shape src_shape src_strides max_ndim ndim = Some (0, dst', st')"
  then have "broadcast_loop (int max_ndim - int ndim) ndim 0 dst_shape src_shape src_strides
               = Some (0, dst', st')"
    by (simp add: Broadcast_body_def)
  from broadcast_loop_failure_prefix [OF this]
  show "\<exists>i<ndim.
          broadcast_loop (int max_ndim - int ndim) i 0 dst_shape src_shape src_strides
            = Some (1, dst', st')
        \<and> src_shape ! i \<noteq> 1
        \<and> dst' ! nat (int i + (int max_ndim - int ndim)) \<noteq> 1
        \<and> src_shape ! i \<noteq> dst' ! nat (int i + (int max_ndim - int ndim))"
    by blast
next
  show "Broadcast_body [1, 1, 5] [1, 3, 4] [s0, s1, s2] 3 3 = Some (0, [1, 3, 5], [0, s1, s2])"
    by (simp add: Broadcast_body_def broadcast_loop.simps Let_def)
qed

theorem broadcast_failure_keeps_updates_witness:
  "\<exists>i<3. broadcast_loop 0 i 0 [1, 1, 5] [1, 3, 4] [96, 32, 8] = Some (1, [1, 3, 5], [0, 32, 8])
        \<and> [1, 3, 4 :: npy_intp] ! i \<noteq> 1
        \<and> [1, 3, 5 :: npy_intp] ! nat (int i) \<noteq> 1
        \<and> [1, 3, 4 :: npy_intp] ! i \<noteq> [1, 3, 5] ! nat (int i)"
proof -
  have h: "Broadcast_body [1, 1, 5] [1, 3, 4] [96, 32, 8] 3 3 = Some (0, [1, 3, 5], [0, 32, 8])"
    by (simp add: Broadcast_body_def broadcast_loop.simps Let_def)
  from broadcast_failure_keeps_updates [where dst_shape = "[1, 1, 5]" and src_shape = "[1, 3, 4]"
      and src_strides = "[96, 32, 8]" and max_ndim = 3 and ndim = 3 and dst' = "[1, 3, 5]"
      and st' = "[0, 32, 8]", THEN conjunct1, THEN mp, OF h]
  show ?thesis by simp
qed

subsection \<open>The error of a failed broadcast\<close>

text \<open>
  Claim C5, as amended. Whenever two extents other than 1 differ at some axis, a call of
  \<^verbatim>\<open>Broadcast.body\<close> returns the failure code 0 and \<^verbatim>\<open>visit_BroadcastNode\<close> raises a
  \<^verbatim>\<open>ValueError\<close> with the fixed message \<^verbatim>\<open>Shape mismatch while broadcasting\<close>; every
  error it raises is that one, so the error names neither the axis nor the extents.
  Broadcasting the shapes (3,) and (4,) fails with exactly this error.
\<close>

theorem broadcast_failure_error:
  "((\<forall>op\<in>set ops. wf_operand max_ndim op) \<and> \<not> broadcastable max_ndim ops \<longrightarrow>
      (\<exists>sh ops' rets.
          broadcast_operands max_ndim (replicate max_ndim 1) ops = Some (sh, ops', rets)
        \<and> 0 \<in> set rets
        \<and> visit_BroadcastNode max_ndim ops =
            Some (Inl (ValueError ''Shape mismatch while broadcasting''))))
   \<and> (visit_BroadcastNode max_ndim ops = Some (Inl e) \<longrightarrow>
        e = ValueError ''Shape mismatch while broadcasting'')
   \<and> visit_BroadcastNode 1
        [\<lparr>op_is_array = True, op_ndim = 1, op_shape = [3], op_strides = [s]\<rparr>,
         \<lparr>op_is_array = True, op_ndim = 1, op_shape = [4], op_strides = [t]\<rparr>]
      = Some (Inl (ValueError ''Shape mismatch while broadcasting''))"
proof (intro conjI impI)
  assume "(\<forall>op\<in>set ops. wf_operand max_ndim op) \<and> \<not> broadcastable max_ndim ops"
  then have wf: "\<forall>op\<in>set ops. wf_operand max_ndim op" and nb: "\<not> broadcastable max_ndim ops"
    by simp_all
  from visit_BroadcastNode_char [OF wf] nb
  show "\<exists>sh ops' rets.
          broadcast_operands max_ndim (replicate max_ndim 1) ops = Some (sh, ops', rets)
        \<and> 0 \<in> set rets
        \<and> visit_BroadcastNode max_ndim ops =
            Some (Inl (ValueError ''Shape mismatch while broadcasting''))"
    by auto
next
  assume "visit_BroadcastNode max_ndim ops = Some (Inl e)"
  then show "e = ValueError ''Shape mismatch while broadcasting''"
    by (rule visit_BroadcastNode_Inl)
next
  show "visit_BroadcastNode 1
        [\<lparr>op_is_array = True, op_ndim = 1, op_shape = [3], op_strides = [s]\<rparr>,
         \<lparr>op_is_array = True, op_ndim = 1, op_shape = [4], op_strides = [t]\<rparr>]
      = Some (Inl (ValueError ''Shape mismatch while broadcasting''))"
    by (simp add: visit_BroadcastNode_def Broadcast_body_def broadcast_loop.simps Let_def)
qed

theorem broadcast_failure_error_witness:
  "\<exists>sh ops' rets.
      broadcast_operands 2 (replicate 2 1)
        [\<lparr>op_is_array = True, op_ndim = 2, op_shape = [2, 5], op_strides = [40, 8]\<rparr>,
         \<lparr>op_is_array = True, op_ndim = 2, op_shape = [2, 7], op_strides = [56, 8]\<rparr>]
        = Some (sh, ops', rets)
    \<and> 0 \<in> set rets
    \<and> visit_BroadcastNode 2
        [\<lparr>op_is_array = True, op_ndim = 2, op_shape = [2, 5], op_strides = [40, 8]\<rparr>,
         \<lparr>op_is_array = True, op_ndim = 2, op_shape = [2, 7], op_strides = [56, 8]\<rparr>]
        = Some (Inl (ValueError ''Shape mismatch while broadcasting''))"
proof -
  let ?ops = "[\<lparr>op_is_array = True, op_ndim = 2, op_shape = [2, 5], op_strides = [40, 8]\<rparr>,
         \<lparr>op_is_array = True, op_ndim = 2, op_shape = [2, 7], op_strides = [56, 8]\<rparr>]"
  have wf: "\<forall>op\<in>set ?ops. wf_operand 2 op" by (simp add: wf_operand_def)
  have nb: "\<not> broadcastable 2 ?ops"
    by (simp add: broadcastable_def extent_at_def lessThan_two)
  from broadcast_failure_error [where ops = ?ops and max_ndim = 2,
      THEN conjunct1, THEN mp, OF conjI [OF wf nb]]
  show ?thesis .
qed

text \<open>
  The claim as stated asks for an error that carries the axis and both extents. The
  error for the shapes (3,) and (4,), which clash at axis 0 with extents 3 and 4, is the
  same value as the error for the shapes (2,5) and (2,7), which clash at axis 1 with
  extents 5 and 7.
\<close>

theorem broadcast_error_same_for_any_mismatch:
  "visit_BroadcastNode 1
        [\<lparr>op_is_array = True, op_ndim = 1, op_shape = [3], op_strides = [8]\<rparr>,
         \<lparr>op_is_array = True, op_ndim = 1, op_shape = [4], op_strides = [8]\<rparr>]
      = Some (Inl (ValueError ''Shape mismatch while broadcasting''))
   \<and> visit_BroadcastNode 2
        [\<lparr>op_is_array = True, op_ndim = 2, op_shape = [2, 5], op_strides = [40, 8]\<rparr>,
         \<lparr>op_is_array = True, op_ndim = 2, op_shape = [2, 7], op_strides = [56, 8]\<rparr>]
      = Some (Inl (ValueError ''Shape mismatch while broadcasting''))"
  by (simp add: visit_BroadcastNode_def Broadcast_body_def broadcast_loop.simps Let_def
      replicate_2)

section \<open>Properties of the serialisation cache\<close>

lemma serialize_object_hit:
  assumes "serialize_object env obj m = Inr (gv, m')"
  shows "\<exists>cache. serialized m' = Some cache \<and> cache obj = Some gv"
  using assms unfolding serialize_object_def
  by (auto split: option.splits if_splits prod.splits simp: Let_def)

lemma serialize_object_again:
  assumes "serialize_object env obj m = Inr (gv, m')"
  shows "serialize_object env obj (PythonAPI_init m') = Inr (gv, m')"
proof -
  from serialize_object_hit [OF assms]
  obtain cache where c: "serialized m' = Some cache" "cache obj = Some gv" by blast
  have h: "hashable env obj"
    using assms unfolding serialize_object_def by (auto split: option.splits if_splits)
  have "PythonAPI_init m' = m'" using c(1) by (simp add: PythonAPI_init_def)
  then show ?thesis using c h by (simp add: serialize_object_def)
qed

lemma cache_consistent_init: "cache_consistent m \<Longrightarrow> cache_consistent (PythonAPI_init m)"
  unfolding cache_consistent_def PythonAPI_init_def
  by (cases "serialized m") auto

lemma cache_consistent_fresh: "cache_consistent fresh_module"
  by (simp add: cache_consistent_def fresh_module_def)

lemma serialize_object_consistent:
  assumes c: "cache_consistent m" and s: "serialize_object env obj m = Inr (gv, m')"
  shows "cache_consistent m'"
proof -
  obtain cache where cache: "serialized m = Some cache"
    using s unfolding serialize_object_def by (auto split: option.splits)
  show ?thesis
  proof (cases "cache obj")
    case (Some g)
    then have "m' = m"
      using s cache unfolding serialize_object_def by (auto split: if_splits)
    then show ?thesis using c by simp
  next
    case None
    have new: "obj \<notin> set (pickled m)"
      using c cache None unfolding cache_consistent_def by auto
    obtain g2 where m': "m' = m\<lparr>serialized := Some (cache(obj \<mapsto> gv)), globals := g2,
                                   pickled := pickled m @ [obj]\<rparr>"
      using s cache None unfolding serialize_object_def
      by (auto split: if_splits option.splits prod.splits simp: Let_def)
    have "distinct (pickled m')" using c new m' by (simp add: cache_consistent_def)
    moreover have "\<forall>x \<in> set (pickled m'). \<exists>ca g. serialized m' = Some ca \<and> ca x = Some g"
      using c cache m' unfolding cache_consistent_def by auto
    ultimately show ?thesis by (simp add: cache_consistent_def)
  qed
qed

lemma serialize_all_consistent:
  "cache_consistent m \<Longrightarrow> serialize_all env objs m = Inr (gvs, m') \<Longrightarrow> cache_consistent m'"
proof (induction objs arbitrary: m gvs)
  case Nil
  then show ?case by simp
next
  case (Cons obj objs)
  from Cons.prems(2) obtain gv m1 gvs1 where
    a: "serialize_object env obj (PythonAPI_init m) = Inr (gv, m1)"
    and b: "serialize_all env objs m1 = Inr (gvs1, m')"
    by (auto split: sum.splits prod.splits)
  have "cache_consistent m1"
    using cache_consistent_init [OF Cons.prems(1)] a by (rule serialize_object_consistent)
  then show ?case using b by (rule Cons.IH)
qed

lemma example_first:
  "serialize_object example_serializer 7 (PythonAPI_init fresh_module) =
     Inr (Const_picklebuf 7,
          \<lparr>serialized = Some [7 \<mapsto> Const_picklebuf 7],
           globals = [(Const_pickledata 7, Bytearray [7]),
                      (Const_picklebuf 7, Literal_struct (Const_pickledata 7) 1)],
           pickled = [7]\<rparr>)"
  by (simp add: serialize_object_def PythonAPI_init_def fresh_module_def example_serializer_def
      name_based_insert_def)

text \<open>
  Claim C8. Within one module, a second call of \<^verbatim>\<open>serialize_object\<close> with an object
  that was serialised before, from the same or another \<^verbatim>\<open>PythonAPI\<close> instance on the
  module, returns the identical global constant and leaves the module as it is: no new
  pickling, no new global. Serialising an object twice in a row gives the same constant
  twice and pickles at most once, and over any sequence of calls on a fresh module no
  object is pickled twice.
\<close>

theorem serialize_object_cached:
  "(serialize_object env obj m = Inr (gv, m1) \<longrightarrow>
      serialize_object env obj (PythonAPI_init m1) = Inr (gv, m1))
   \<and> (serialize_all env [obj, obj] m = Inr (gvs, m2) \<longrightarrow>
        (\<exists>g. gvs = [g, g]) \<and> length (pickled m2) \<le> length (pickled m) + 1)
   \<and> (serialize_all env objs fresh_module = Inr (gvs3, m3) \<longrightarrow> distinct (pickled m3))"
proof -
  have p1: "serialize_object env obj (PythonAPI_init m1) = Inr (gv, m1)"
    if "serialize_object env obj m = Inr (gv, m1)"
    using that by (rule serialize_object_again)
  have p2: "(\<exists>g. gvs = [g, g]) \<and> length (pickled m2) \<le> length (pickled m) + 1"
    if a: "serialize_all env [obj, obj] m = Inr (gvs, m2)"
  proof -
    from a obtain g1 n1 where
      s1: "serialize_object env obj (PythonAPI_init m) = Inr (g1, n1)"
      by (auto split: sum.splits prod.splits)
    have s2: "serialize_object env obj (PythonAPI_init n1) = Inr (g1, n1)"
      using s1 by (rule serialize_object_again)
    have r: "gvs = [g1, g1]" "m2 = n1" using a s1 s2 by simp_all
    have "length (pickled n1) \<le> length (pickled (PythonAPI_init m)) + 1"
      using s1 unfolding serialize_object_def
      by (auto split: option.splits if_splits prod.splits simp: Let_def)
    moreover have "pickled (PythonAPI_init m) = pickled m"
      by (simp add: PythonAPI_init_def split: option.splits)
    ultimately show ?thesis using r by simp
  qed
  have p3: "distinct (pickled m3)"
    if "serialize_all env objs fresh_module = Inr (gvs3, m3)"
  proof -
    from cache_consistent_fresh that have "cache_consistent m3"
      by (rule serialize_all_consistent)
    then show ?thesis by (simp add: cache_consistent_def)
  qed
  show ?thesis using p1 p2 p3 by blast
qed

theorem serialize_object_cached_witness:
  "serialize_object example_serializer 7
     (PythonAPI_init
        \<lparr>serialized = Some [7 \<mapsto> Const_picklebuf 7],
         globals = [(Const_pickledata 7, Bytearray [7]),
                    (Const_picklebuf 7, Literal_struct (Const_pickledata 7) 1)],
         pickled = [7]\<rparr>)
   = Inr (Const_picklebuf 7,
          \<lparr>serialized = Some [7 \<mapsto> Const_picklebuf 7],
           globals = [(Const_pickledata 7, Bytearray [7]),
                      (Const_picklebuf 7, Literal_struct (Const_pickledata 7) 1)],
           pickled = [7]\<rparr>)"
  using serialize_object_cached [where env = example_serializer and obj = 7
      and m = "PythonAPI_init fresh_module", THEN conjunct1, THEN mp, OF example_first] .


section \<open>Properties of the conversion to an optional\<close>

text \<open>
  In \<^verbatim>\<open>to_native_optional\<close> the argument \<open>inner\<close> is the code that
  \<^verbatim>\<open>self.to_native_value(obj, typ.type)\<close> generates for the branch of an object that is
  not \<^verbatim>\<open>None\<close>: its value, its error flag, its cleanup and the world it leaves. The
  properties hold for every such code, that is for every inner type and whatever its
  conversion does.
\<close>

subsection \<open>The two branches\<close>

text \<open>
  Claim C7. For the none singleton the result is the absent value, the world is the one
  before the conversion (the conversion of the inner type made no call), the error flag
  is unset, and the cleanup, when the inner conversion has one, changes nothing (the
  cleanup of the inner type is not invoked). For any other object the result is the
  value of the inner conversion wrapped as present, with the error flag, the world and
  the cleanup of the inner conversion. When the code of the inner conversion cannot be
  generated, neither can the code of the optional.
\<close>

theorem optional_branch_exclusivity:
  "(obj = borrow_none env \<longrightarrow>
      to_native_optional env obj (Inr (native, w1)) w =
        Inr (\<lparr>nv_value = make_optional_none, is_error = False,
              cleanup = map_option (\<lambda>c w. w) (cleanup native)\<rparr>, w))
   \<and> (obj \<noteq> borrow_none env \<longrightarrow>
      to_native_optional env obj (Inr (native, w1)) w =
        Inr (\<lparr>nv_value = make_optional_value (nv_value native), is_error = is_error native,
              cleanup = cleanup native\<rparr>, w1))
   \<and> to_native_optional env obj (Inl e) w = Inl e"
  by (cases "cleanup native") (simp_all add: to_native_optional_def Let_def)

theorem optional_branch_exclusivity_witness:
  "to_native_optional example_runtime (NObj (Some PyNone))
      (Inr (\<lparr>nv_value = NUndef, is_error = True,
             cleanup = Some (decref example_runtime (NObj (Some PyNone)))\<rparr>,
            \<lparr>err_indicator = True, calls = [(PyNumber_Long, [NObj (Some PyNone)])]\<rparr>)) world0
     = Inr (\<lparr>nv_value = make_optional_none, is_error = False,
             cleanup = Some (\<lambda>w. w)\<rparr>, world0)
   \<and> to_native_optional example_runtime (NObj (Some (PyInt 5)))
      (Inr (\<lparr>nv_value = NInt 64 5, is_error = False, cleanup = None\<rparr>,
            \<lparr>err_indicator = False, calls = [(PyNumber_Long, [NObj (Some (PyInt 5))])]\<rparr>)) world0
     = Inr (\<lparr>nv_value = make_optional_value (NInt 64 5), is_error = False, cleanup = None\<rparr>,
            \<lparr>err_indicator = False, calls = [(PyNumber_Long, [NObj (Some (PyInt 5))])]\<rparr>)"
proof -
  have n: "NObj (Some PyNone) = borrow_none example_runtime"
    by (simp add: borrow_none_def get_c_object_def example_runtime_def)
  have m: "NObj (Some (PyInt 5)) \<noteq> borrow_none example_runtime"
    by (simp add: borrow_none_def get_c_object_def example_runtime_def)
  from optional_branch_exclusivity [where obj = "NObj (Some PyNone)" and env = example_runtime,
      THEN conjunct1, THEN mp, OF n]
    optional_branch_exclusivity [where obj = "NObj (Some (PyInt 5))" and env = example_runtime,
      THEN conjunct2, THEN conjunct1, THEN mp, OF m]
  show ?thesis by simp
qed

subsection \<open>The error flag of the none singleton\<close>

text \<open>
  Claim C10. Converting the none singleton to an optional returns an unset error flag,
  whatever the error flag of the inner conversion is: a result of the conversion has its
  error flag unset, and there is a result whenever the code of the inner conversion can
  be generated.
\<close>

theorem optional_none_error_flag_unset:
  "(to_native_optional env (borrow_none env) inner w = Inr (native, w') \<longrightarrow> \<not> is_error native)
   \<and> (inner = Inr x \<longrightarrow>
        (\<exists>native w'. to_native_optional env (borrow_none env) inner w = Inr (native, w')
           \<and> \<not> is_error native))"
  by (cases inner) (auto simp: to_native_optional_def Let_def)

theorem optional_none_error_flag_unset_witness:
  "\<exists>native w'. to_native_optional example_runtime (borrow_none example_runtime)
      (Inr (\<lparr>nv_value = NUndef, is_error = True, cleanup = None\<rparr>,
            \<lparr>err_indicator = True, calls = [(PyNumber_Long, [NObj (Some PyNone)])]\<rparr>)) world0
     = Inr (native, w') \<and> \<not> is_error native"
  using optional_none_error_flag_unset [where env = example_runtime and w = world0,
      THEN conjunct2, THEN mp, OF refl]
  by simp

section \<open>Properties of the conversion of a tuple\<close>


lemma run_in_reverse_fold: "fold (\<lambda>func w. func w) (rev cs) w = run_in_reverse cs w"
  by (induction cs arbitrary: w) simp_all

lemma element_cleanups_Cons:
  "element_cleanups (n # ns) =
     (case cleanup n of None \<Rightarrow> element_cleanups ns | Some c \<Rightarrow> c # element_cleanups ns)"
  by (simp add: element_cleanups_def List.map_filter_simps split: option.splits)

lemma element_cleanups_Nil: "element_cleanups [] = []"
  by (simp add: element_cleanups_def List.map_filter_simps)

lemma to_native_tuple_loop_elements:
  "to_native_tuple_loop env obj i ts values is_err cleanups w =
     (case tuple_elements env obj i ts w of
        Inl e \<Rightarrow> Inl e
      | Inr (natives, w') \<Rightarrow>
          Inr ((values @ map nv_value natives, is_err \<or> list_ex is_error natives,
                cleanups @ element_cleanups natives), w'))"
proof (induction ts arbitrary: i "values" is_err cleanups w)
  case Nil
  show ?case by (simp add: element_cleanups_Nil)
next
  case (Cons t ts)
  show ?case
    by (simp add: Cons.IH element_cleanups_Cons split: prod.splits sum.splits option.splits)
qed

lemma to_native_unituple_loop_replicate:
  "to_native_unituple_loop env obj i dtype n values is_err cleanups w =
     to_native_tuple_loop env obj i (replicate n dtype) values is_err cleanups w"
proof (induction n arbitrary: i "values" is_err cleanups w)
  case 0
  show ?case by simp
next
  case (Suc n)
  show ?case by (simp add: Suc.IH split: prod.splits sum.splits option.splits)
qed

lemma tuple_elements_length:
  "tuple_elements env obj i ts w = Inr (natives, w') \<Longrightarrow> length natives = length ts"
proof (induction ts arbitrary: i w natives)
  case Nil
  then show ?case by simp
next
  case (Cons t ts)
  then show ?case by (auto split: prod.splits sum.splits)
qed

lemma element_cleanups_empty_iff:
  "element_cleanups natives \<noteq> [] \<longleftrightarrow> list_ex (\<lambda>n. cleanup n \<noteq> None) natives"
  by (induction natives) (auto simp: element_cleanups_Nil element_cleanups_Cons split: option.splits)
end
